theory Spec2Isabelle
  imports Main "HOL-Library.Char_ord" "HOL-Library.List_Lexorder" "HOL-Library.Multiset"
begin

section \<open>The chatbot of example.py\<close>

text \<open>
  The program is a command-line loop around three external services: a content-safety
  classifier, a chat-completion kernel and a Cosmos DB container. The services are not
  part of the program. Their answers are taken from an environment \<open>env\<close>, indexed by
  the number of external calls issued so far, so that every call may succeed or fail
  independently; the container is an explicit list of documents. Everything the program
  does is a function from a \<open>world\<close> (container, standard output, trace of external
  calls) to a result and a new world; a raised exception is the result \<open>Inl e\<close>.
\<close>

subsection \<open>Strings\<close>

text \<open>
  \<open>str.lower\<close> and \<open>str.capitalize\<close> on the ASCII letters; every other character is
  left alone. The program uses \<open>lower\<close> only to compare a line with the ASCII words exit,
  history and clear. In Python the one character outside ASCII that lowers to ASCII
  letters alone is the Kelvin sign, which lowers to k, a letter of none of the three
  words; so a line with a character outside ASCII matches no command, here as there.
\<close>

definition lower_char :: "char \<Rightarrow> char" where
  "lower_char c =
     (if CHR ''A'' \<le> c \<and> c \<le> CHR ''Z'' then char_of (of_char c + (32::nat)) else c)"

definition upper_char :: "char \<Rightarrow> char" where
  "upper_char c =
     (if CHR ''a'' \<le> c \<and> c \<le> CHR ''z'' then char_of (of_char c - (32::nat)) else c)"

definition lower :: "string \<Rightarrow> string" where
  "lower s = map lower_char s"

definition capitalize :: "string \<Rightarrow> string" where
  "capitalize s = (case s of [] \<Rightarrow> [] | c # cs \<Rightarrow> upper_char c # map lower_char cs)"

definition digit_char :: "nat \<Rightarrow> char" where
  "digit_char d = char_of (48 + d)"

function str_nat :: "nat \<Rightarrow> string" where
  "str_nat n = (if n < 10 then [digit_char n] else str_nat (n div 10) @ [digit_char (n mod 10)])"
  by pat_completeness auto
termination
  by (relation "measure (\<lambda>n. n)") auto

definition str_int :: "int \<Rightarrow> string" where
  "str_int i = (if i < 0 then CHR ''-'' # str_nat (nat (- i)) else str_nat (nat i))"

definition newline :: string where
  "newline = [CHR 0x0A]"

text \<open>\<open>sep.join(xs)\<close>\<close>

fun join :: "string \<Rightarrow> string list \<Rightarrow> string" where
  "join sep [] = []"
| "join sep [x] = x"
| "join sep (x # y # ys) = x @ sep @ join sep (y # ys)"

subsection \<open>Data\<close>

text \<open>
  The four members of \<open>TextCategory\<close> and one entry of \<open>categories_analysis\<close>, with
  its severity as the integer the program compares with its threshold.
\<close>

datatype TextCategory = HATE | SELF_HARM | SEXUAL | VIOLENCE

record TextCategoriesAnalysis =
  category :: TextCategory
  severity :: int

text \<open>
  The document that \<open>_store_interaction_sync\<close> upserts, with the keys of the Python
  dictionary (\<open>item_id\<close> is the key \<open>id\<close>).
\<close>

record item =
  item_id :: string
  user_message :: string
  bot_response :: string
  timestamp :: string
  userId :: string

text \<open>
  A reading of \<open>datetime.now(timezone.utc)\<close>. The program takes two renderings of it,
  \<open>str(current_time.timestamp())\<close> and \<open>current_time.isoformat()\<close>, both library
  functions; the reading is represented by these two strings.
\<close>

record datetime =
  str_timestamp :: string
  isoformat :: string

text \<open>
  Exceptions. \<open>HttpResponseError\<close> is the one class \<open>analyze_text\<close> catches;
  \<open>TypeError\<close> is raised by unpacking \<open>None\<close> into two names, \<open>EOFError\<close> by \<open>input\<close> at
  the end of the input, \<open>Exception\<close> is any other exception of an external call.
\<close>

datatype error =
    HttpResponseError string
  | TypeError
  | EOFError
  | Exception string

text \<open>
  The external calls the program issues, in the order it issues them, each with what it
  answered: the response or the exception raised.
\<close>

datatype call =
    AnalyzeText string "error + TextCategoriesAnalysis list"
  | Invoke string string "error + string"
  | QueryItems bool string "error option"
  | UpsertItem item "error option"
  | DeleteItem item string "error option"

record world =
  container :: "item list"
  stdout :: "string list"
  calls :: "call list"

text \<open>
  The environment: what each external call answers. The first argument is the number of
  external calls issued before this one. \<open>cosmos_fault\<close> says whether a call to the
  container fails for a reason of the service.
\<close>

record env =
  analyze_text_response :: "nat \<Rightarrow> string \<Rightarrow> error + TextCategoriesAnalysis list"
  invoke_response :: "nat \<Rightarrow> string \<Rightarrow> string \<Rightarrow> error + string"
  cosmos_fault :: "nat \<Rightarrow> error option"
  utcnow :: "nat \<Rightarrow> datetime"

subsection \<open>Standard output\<close>

text \<open>\<open>print(s)\<close> writes \<open>s\<close> and a newline; \<open>input(p)\<close> writes the prompt \<open>p\<close>.\<close>

definition print :: "string \<Rightarrow> world \<Rightarrow> world" where
  "print s w = w\<lparr>stdout := stdout w @ [s @ newline]\<rparr>"

definition prompt :: "string \<Rightarrow> world \<Rightarrow> world" where
  "prompt p w = w\<lparr>stdout := stdout w @ [p]\<rparr>"

definition issue :: "call \<Rightarrow> world \<Rightarrow> world" where
  "issue c w = w\<lparr>calls := calls w @ [c]\<rparr>"

subsection \<open>The container\<close>

text \<open>
  The container holds the documents in the order of their creation; its partition key is
  \<open>/userId\<close>, and a document is identified by its id within its partition. The two
  queries of the program select the documents of one user, the first of them ordered by
  the timestamp string, descending (\<open>ordered = True\<close>). \<open>upsert_item\<close> replaces the
  document with the same id and partition, or adds the document. \<open>delete_item\<close> removes
  the document with the id of the given item in the given partition, and fails when
  there is none.
\<close>

definition same_key :: "item \<Rightarrow> item \<Rightarrow> bool" where
  "same_key x d = (item_id x = item_id d \<and> userId x = userId d)"

definition query_items :: "bool \<Rightarrow> string \<Rightarrow> item list \<Rightarrow> item list" where
  "query_items ordered uid c =
     (let rows = filter (\<lambda>d. userId d = uid) c
      in if ordered then rev (sort_key timestamp rows) else rows)"

definition upsert_item :: "item \<Rightarrow> item list \<Rightarrow> item list" where
  "upsert_item d c =
     (if list_ex (\<lambda>x. same_key x d) c
      then map (\<lambda>x. if same_key x d then d else x) c
      else c @ [d])"

definition delete_item :: "item \<Rightarrow> string \<Rightarrow> item list \<Rightarrow> error + item list" where
  "delete_item d pk c =
     (if list_ex (\<lambda>x. item_id x = item_id d \<and> userId x = pk) c
      then Inr (filter (\<lambda>x. \<not> (item_id x = item_id d \<and> userId x = pk)) c)
      else Inl (Exception ''CosmosResourceNotFoundError''))"

text \<open>The invariant of the service: ids are unique within a partition.\<close>

definition wf_container :: "item list \<Rightarrow> bool" where
  "wf_container c = distinct (map (\<lambda>d. (userId d, item_id d)) c)"

text \<open>
  The calls of the program to its clients: each takes its answer from the environment,
  records the call, and returns the answer or raises.
\<close>

definition content_safety_analyze_text ::
  "env \<Rightarrow> string \<Rightarrow> world \<Rightarrow> (error + TextCategoriesAnalysis list) \<times> world" where
  "content_safety_analyze_text E text w =
     (let r = analyze_text_response E (length (calls w)) text
      in (r, issue (AnalyzeText text r) w))"

definition kernel_invoke :: "env \<Rightarrow> string \<Rightarrow> string \<Rightarrow> world \<Rightarrow> (error + string) \<times> world" where
  "kernel_invoke E message history w =
     (let r = invoke_response E (length (calls w)) message history
      in (r, issue (Invoke message history r) w))"

definition container_query_items ::
  "env \<Rightarrow> bool \<Rightarrow> string \<Rightarrow> world \<Rightarrow> (error + item list) \<times> world" where
  "container_query_items E ordered uid w =
     (let f = cosmos_fault E (length (calls w));
          w1 = issue (QueryItems ordered uid f) w
      in case f of
           Some e \<Rightarrow> (Inl e, w1)
         | None \<Rightarrow> (Inr (query_items ordered uid (container w)), w1))"

definition container_upsert_item :: "env \<Rightarrow> item \<Rightarrow> world \<Rightarrow> (error + unit) \<times> world" where
  "container_upsert_item E d w =
     (let f = cosmos_fault E (length (calls w));
          w1 = issue (UpsertItem d f) w
      in case f of
           Some e \<Rightarrow> (Inl e, w1)
         | None \<Rightarrow> (Inr (), w1\<lparr>container := upsert_item d (container w)\<rparr>))"

definition container_delete_item ::
  "env \<Rightarrow> item \<Rightarrow> string \<Rightarrow> world \<Rightarrow> (error + unit) \<times> world" where
  "container_delete_item E d pk w =
     (let r = (case cosmos_fault E (length (calls w)) of
                 Some e \<Rightarrow> Inl e
               | None \<Rightarrow> delete_item d pk (container w))
      in case r of
           Inl e \<Rightarrow> (Inl e, issue (DeleteItem d pk (Some e)) w)
         | Inr c \<Rightarrow> (Inr (), (issue (DeleteItem d pk None) w)\<lparr>container := c\<rparr>))"

subsection \<open>ChatbotService\<close>

text \<open>
  \<open>analyze_text\<close>. \<open>next_category c\<close> is
  \<open>next((item for item in response.categories_analysis if item.category == c), None)\<close>;
  \<open>results\<close> is the dictionary, in the order of its four keys. On \<open>HttpResponseError\<close>
  the method prints and falls off its end: it returns \<open>None\<close>, here \<open>Inr None\<close>. Any
  other exception of the call is not caught.
\<close>

definition next_category ::
  "TextCategory \<Rightarrow> TextCategoriesAnalysis list \<Rightarrow> TextCategoriesAnalysis option" where
  "next_category c response = find (\<lambda>item. category item = c) response"

definition threshold :: int where
  "threshold = 2"

fun print_results :: "(string \<times> TextCategoriesAnalysis option) list \<Rightarrow> world \<Rightarrow> world" where
  "print_results [] w = w"
| "print_results ((cat, result) # rs) w =
     print_results rs
       (case result of
          None \<Rightarrow> w
        | Some r \<Rightarrow> print (capitalize cat @ '' severity: '' @ str_int (severity r)) w)"

definition unsafe_result :: "TextCategoriesAnalysis option \<Rightarrow> bool" where
  "unsafe_result result = (case result of None \<Rightarrow> False | Some r \<Rightarrow> threshold \<le> severity r)"

definition analyze_text ::
  "env \<Rightarrow> string \<Rightarrow> world \<Rightarrow>
   (error + (bool \<times> (string \<times> TextCategoriesAnalysis option) list) option) \<times> world" where
  "analyze_text E text w =
     (case content_safety_analyze_text E text w of
        (Inr response, w1) \<Rightarrow>
          (let results =
                 [(''hate'', next_category HATE response),
                  (''self_harm'', next_category SELF_HARM response),
                  (''sexual'', next_category SEXUAL response),
                  (''violence'', next_category VIOLENCE response)];
               w2 = print (newline @ ''<-- Content Safety Analysis Results -->'') w1;
               w3 = print_results results w2;
               w4 = print (''<-- End of Content Safety Analysis Results -->'' @ newline) w3;
               is_safe = (\<not> list_ex unsafe_result (map snd results))
           in (Inr (Some (is_safe, results)), w4))
      | (Inl (HttpResponseError e), w1) \<Rightarrow>
          (Inr None, print (''Failed to analyze text. Error: '' @ e) w1)
      | (Inl e, w1) \<Rightarrow> (Inl e, w1))"

text \<open>\<open>chat_with_kernel\<close>: one call of the kernel, whose exception is not caught.\<close>

definition chat_with_kernel :: "env \<Rightarrow> string \<Rightarrow> string \<Rightarrow> world \<Rightarrow> (error + string) \<times> world" where
  "chat_with_kernel E message history w = kernel_invoke E message history w"

text \<open>\<open>_store_interaction_sync\<close> and its asynchronous wrapper \<open>store_interaction\<close>.\<close>

definition store_interaction_sync ::
  "env \<Rightarrow> string \<Rightarrow> string \<Rightarrow> string \<Rightarrow> world \<Rightarrow> (error + unit) \<times> world" where
  "store_interaction_sync E user_id message chat_response w =
     (let current_time = utcnow E (length (calls w))
      in container_upsert_item E
           \<lparr>item_id = str_timestamp current_time,
            user_message = message,
            bot_response = chat_response,
            timestamp = isoformat current_time,
            userId = user_id\<rparr> w)"

definition store_interaction ::
  "env \<Rightarrow> string \<Rightarrow> string \<Rightarrow> string \<Rightarrow> world \<Rightarrow> (error + unit) \<times> world" where
  "store_interaction E user_id message chat_response w =
     store_interaction_sync E user_id message chat_response w"

text \<open>\<open>_load_historical_context_sync\<close> and \<open>load_historical_context\<close>.\<close>

definition render :: "item \<Rightarrow> string" where
  "render d = ''User: '' @ user_message d @ newline @ ''ChatBot: '' @ bot_response d"

definition load_historical_context_sync ::
  "env \<Rightarrow> string \<Rightarrow> world \<Rightarrow> (error + string) \<times> world" where
  "load_historical_context_sync E user_id w =
     (case container_query_items E True user_id w of
        (Inl e, w1) \<Rightarrow> (Inl e, w1)
      | (Inr items, w1) \<Rightarrow>
          (let history_items = take 5 items
           in (Inr (join newline (map render history_items)), w1)))"

definition load_historical_context :: "env \<Rightarrow> string \<Rightarrow> world \<Rightarrow> (error + string) \<times> world" where
  "load_historical_context E user_id w = load_historical_context_sync E user_id w"

text \<open>
  \<open>_clear_historical_context_sync\<close> and \<open>clear_historical_context\<close>; \<open>delete_items\<close> is
  the loop \<open>for item in items: self.container.delete_item(item, partition_key=...)\<close>.
\<close>

fun delete_items :: "env \<Rightarrow> string \<Rightarrow> item list \<Rightarrow> world \<Rightarrow> (error + unit) \<times> world" where
  "delete_items E user_id [] w = (Inr (), w)"
| "delete_items E user_id (d # ds) w =
     (case container_delete_item E d user_id w of
        (Inl e, w1) \<Rightarrow> (Inl e, w1)
      | (Inr u, w1) \<Rightarrow> delete_items E user_id ds w1)"

definition clear_historical_context_sync ::
  "env \<Rightarrow> string \<Rightarrow> world \<Rightarrow> (error + unit) \<times> world" where
  "clear_historical_context_sync E user_id w =
     (case container_query_items E False user_id w of
        (Inl e, w1) \<Rightarrow> (Inl e, w1)
      | (Inr items, w1) \<Rightarrow> delete_items E user_id items w1)"

definition clear_historical_context :: "env \<Rightarrow> string \<Rightarrow> world \<Rightarrow> (error + unit) \<times> world" where
  "clear_historical_context E user_id w = clear_historical_context_sync E user_id w"

subsection \<open>main\<close>

text \<open>
  \<open>loop_body\<close> is the body of \<open>while True\<close> after \<open>input\<close> has returned the line: it
  ends in \<open>break\<close>, falls through to the next iteration, or raises.
  \<open>is_safe, _ = await chatbot_service.analyze_text(user_message)\<close> raises \<open>TypeError\<close>
  when the method has returned \<open>None\<close>.
\<close>

datatype control = Break | Continue

definition loop_body :: "env \<Rightarrow> string \<Rightarrow> string \<Rightarrow> world \<Rightarrow> (error + control) \<times> world" where
  "loop_body E user_id line w =
     (if lower line = ''exit'' then (Inr Break, w)
      else if lower line = ''history'' then
        (case load_historical_context E user_id w of
           (Inl e, w1) \<Rightarrow> (Inl e, w1)
         | (Inr history, w1) \<Rightarrow>
             (Inr Continue,
              print (''<-- End of chat history of user ID: '' @ user_id @ '' -->'' @ newline)
                (print history
                  (print (newline @ ''<-- Chat history of user ID: '' @ user_id @ '' -->'') w1))))
      else if lower line = ''clear'' then
        (case clear_historical_context E user_id w of
           (Inl e, w1) \<Rightarrow> (Inl e, w1)
         | (Inr u, w1) \<Rightarrow> (Inr Continue, print ''Chat history cleared.'' w1))
      else
        (case analyze_text E line w of
           (Inl e, w1) \<Rightarrow> (Inl e, w1)
         | (Inr None, w1) \<Rightarrow> (Inl TypeError, w1)
         | (Inr (Some (is_safe, results)), w1) \<Rightarrow>
             if is_safe then
               (case load_historical_context E user_id w1 of
                  (Inl e, w2) \<Rightarrow> (Inl e, w2)
                | (Inr history, w2) \<Rightarrow>
                    (case chat_with_kernel E line history w2 of
                       (Inl e, w3) \<Rightarrow> (Inl e, w3)
                     | (Inr chat_response, w3) \<Rightarrow>
                         (case store_interaction E user_id line chat_response
                                 (print (''Chatbot: '' @ chat_response) w3) of
                            (Inl e, w4) \<Rightarrow> (Inl e, w4)
                          | (Inr u, w4) \<Rightarrow> (Inr Continue, w4))))
             else
               (Inr Continue,
                print ''Chatbot: Your message is not safe to process. Please rephrase and try again.'' w1)))"

text \<open>
  The loop, over the lines that \<open>input\<close> will return. \<open>break\<close> ends it with the result
  \<open>Inr ()\<close>; at the end of the input \<open>input\<close> raises \<open>EOFError\<close>; an exception of the
  body is caught nowhere.
\<close>

fun main_loop :: "env \<Rightarrow> string \<Rightarrow> string list \<Rightarrow> world \<Rightarrow> (error + unit) \<times> world" where
  "main_loop E user_id [] w = (Inl EOFError, prompt ''You: '' w)"
| "main_loop E user_id (line # rest) w =
     (case loop_body E user_id line (prompt ''You: '' w) of
        (Inl e, w1) \<Rightarrow> (Inl e, w1)
      | (Inr Break, w1) \<Rightarrow> (Inr (), w1)
      | (Inr Continue, w1) \<Rightarrow> main_loop E user_id rest w1)"

text \<open>
  \<open>main\<close>: the first line of the input is the user id. Building the clients
  (\<open>ChatbotService(loop, user_id).init()\<close>) issues none of the calls above.
\<close>

definition main :: "env \<Rightarrow> string list \<Rightarrow> world \<Rightarrow> (error + unit) \<times> world" where
  "main E inputs w =
     (case inputs of
        [] \<Rightarrow> (Inl EOFError, prompt ''User ID: '' w)
      | user_id # rest \<Rightarrow> main_loop E user_id rest (prompt ''User ID: '' w))"

section \<open>Vocabulary of the properties\<close>

text \<open>
  The severity the verdict uses for a category: that of the first entry of the response
  for the category, and zero when the response has none.
\<close>

definition category_severity :: "TextCategory \<Rightarrow> TextCategoriesAnalysis list \<Rightarrow> int" where
  "category_severity c response =
     (case next_category c response of None \<Rightarrow> 0 | Some r \<Rightarrow> severity r)"

text \<open>The verdict of the safety gate as the specification words it.\<close>

definition verdict_safe :: "TextCategoriesAnalysis list \<Rightarrow> bool" where
  "verdict_safe response = (\<forall>c. category_severity c response < 2)"

text \<open>
  What a recorded call did to the container, and the failure it raised. \<open>replay\<close>
  runs the recorded calls of a trace over a container.
\<close>

fun apply_call :: "call \<Rightarrow> item list \<Rightarrow> item list" where
  "apply_call (UpsertItem d None) c = upsert_item d c"
| "apply_call (DeleteItem d pk None) c = filter (\<lambda>x. \<not> (item_id x = item_id d \<and> userId x = pk)) c"
| "apply_call other c = c"

definition replay :: "call list \<Rightarrow> item list \<Rightarrow> item list" where
  "replay cs c = fold apply_call cs c"

fun call_failure :: "call \<Rightarrow> error option" where
  "call_failure (Invoke m h (Inl e)) = Some e"
| "call_failure (QueryItems b u f) = f"
| "call_failure (UpsertItem d f) = f"
| "call_failure (DeleteItem d pk f) = f"
| "call_failure other = None"

text \<open>The two lines a turn is rendered as.\<close>

definition turn_lines :: "item \<Rightarrow> string list" where
  "turn_lines d = [''User: '' @ user_message d, ''ChatBot: '' @ bot_response d]"

text \<open>
  A case-insensitive match of a line with a command word written in lower-case letters:
  the line has the letters of the word, each in either case.
\<close>

definition letter_matches :: "char \<Rightarrow> char \<Rightarrow> bool" where
  "letter_matches c x = (x = c \<or> x = upper_char c)"

definition matches_command :: "string \<Rightarrow> string \<Rightarrow> bool" where
  "matches_command cmd line = list_all2 letter_matches cmd line"

text \<open>
  The trimmed input of the specification: the line without its leading and trailing
  whitespace, as \<open>str.strip\<close> returns it.
\<close>

definition is_space :: "char \<Rightarrow> bool" where
  "is_space c = (c \<in> set [CHR '' '', CHR 0x09, CHR 0x0A, CHR 0x0B, CHR 0x0C, CHR 0x0D])"

definition trimmed :: "string \<Rightarrow> string" where
  "trimmed s = rev (dropWhile is_space (rev (dropWhile is_space s)))"

text \<open>The text of the history of a user: the lines of the five most recent turns.\<close>

definition history_text :: "string \<Rightarrow> item list \<Rightarrow> string" where
  "history_text uid c = join newline (concat (map turn_lines (take 5 (query_items True uid c))))"

text \<open>
  The conditions under which the turn of a chat message reaches the store: the
  classification answers with a safe verdict, the history read succeeds, the generation
  returns a response, and the store accepts the write. The four calls are the next four
  external calls after the \<open>length (calls w)\<close> issued before the turn.
\<close>

definition turn_accepted ::
  "env \<Rightarrow> string \<Rightarrow> string \<Rightarrow> world \<Rightarrow> TextCategoriesAnalysis list \<Rightarrow> string \<Rightarrow> bool" where
  "turn_accepted E uid line w response resp =
     (analyze_text_response E (length (calls w)) line = Inr response
      \<and> verdict_safe response
      \<and> cosmos_fault E (length (calls w) + 1) = None
      \<and> invoke_response E (length (calls w) + 2) line (history_text uid (container w)) = Inr resp
      \<and> cosmos_fault E (length (calls w) + 3) = None)"

text \<open>No call to the container fails from the \<open>k\<close>-th external call on.\<close>

definition no_fault_from :: "env \<Rightarrow> nat \<Rightarrow> bool" where
  "no_fault_from E k = (\<forall>i\<ge>k. cosmos_fault E i = None)"

text \<open>
  The calls one iteration of the loop can issue, with its result: one rule for each path
  through \<open>loop_body\<close>. A session's trace is a sequence of such segments, all but the
  last of which fall through to the next iteration.
\<close>

inductive turn_seg :: "string \<Rightarrow> string \<Rightarrow> (error + control) \<Rightarrow> call list \<Rightarrow> bool"
  for uid :: string and line :: string where
  seg_exit: "turn_seg uid line (Inr Break) []"
| seg_history: "turn_seg uid line (Inr Continue) [QueryItems True uid None]"
| seg_history_fail: "turn_seg uid line (Inl e) [QueryItems True uid (Some e)]"
| seg_clear: "turn_seg uid line (Inr Continue) (QueryItems False uid None # map (\<lambda>d. DeleteItem d uid None) ds)"
| seg_clear_query_fail: "turn_seg uid line (Inl e) [QueryItems False uid (Some e)]"
| seg_clear_delete_fail:
    "turn_seg uid line (Inl e)
       (QueryItems False uid None # map (\<lambda>d. DeleteItem d uid None) ds @ [DeleteItem d uid (Some e)])"
| seg_classify_caught: "turn_seg uid line (Inl TypeError) [AnalyzeText line (Inl (HttpResponseError m))]"
| seg_classify_raise:
    "\<forall>m. e \<noteq> HttpResponseError m \<Longrightarrow> turn_seg uid line (Inl e) [AnalyzeText line (Inl e)]"
| seg_unsafe:
    "\<not> verdict_safe response \<Longrightarrow> turn_seg uid line (Inr Continue) [AnalyzeText line (Inr response)]"
| seg_read_fail:
    "verdict_safe response \<Longrightarrow>
     turn_seg uid line (Inl e) [AnalyzeText line (Inr response), QueryItems True uid (Some e)]"
| seg_generation_fail:
    "verdict_safe response \<Longrightarrow>
     turn_seg uid line (Inl e)
       [AnalyzeText line (Inr response), QueryItems True uid None, Invoke line h (Inl e)]"
| seg_write:
    "verdict_safe response \<Longrightarrow> user_message d = line \<Longrightarrow> bot_response d = resp \<Longrightarrow>
     userId d = uid \<Longrightarrow>
     turn_seg uid line (Inr Continue)
       [AnalyzeText line (Inr response), QueryItems True uid None, Invoke line h (Inr resp),
        UpsertItem d None]"
| seg_write_fail:
    "verdict_safe response \<Longrightarrow> user_message d = line \<Longrightarrow> bot_response d = resp \<Longrightarrow>
     userId d = uid \<Longrightarrow>
     turn_seg uid line (Inl e)
       [AnalyzeText line (Inr response), QueryItems True uid None, Invoke line h (Inr resp),
        UpsertItem d (Some e)]"

inductive session_trace :: "string \<Rightarrow> (error + unit) \<Rightarrow> call list \<Rightarrow> bool"
  for uid :: string where
  session_eof: "session_trace uid (Inl EOFError) []"
| session_break: "turn_seg uid line (Inr Break) seg \<Longrightarrow> session_trace uid (Inr ()) seg"
| session_raise: "turn_seg uid line (Inl e) seg \<Longrightarrow> session_trace uid (Inl e) seg"
| session_continue:
    "turn_seg uid line (Inr Continue) seg \<Longrightarrow> session_trace uid r N \<Longrightarrow>
     session_trace uid r (seg @ N)"

subsection \<open>Example worlds and environments\<close>

definition E_ok :: env where
  "E_ok = \<lparr>analyze_text_response = (\<lambda>k t. Inr [\<lparr>category = HATE, severity = 0\<rparr>]),
           invoke_response = (\<lambda>k m h. Inr ''Hi''),
           cosmos_fault = (\<lambda>k. None),
           utcnow = (\<lambda>k. \<lparr>str_timestamp = ''9.5'', isoformat = ''T9''\<rparr>)\<rparr>"

definition w_empty :: world where
  "w_empty = \<lparr>container = [], stdout = [], calls = []\<rparr>"

definition turn_hello :: item where
  "turn_hello = \<lparr>item_id = ''9.5'', user_message = ''Hello'', bot_response = ''Hi'',
                  timestamp = ''T9'', userId = ''alice''\<rparr>"

definition E_generation_fails :: env where
  "E_generation_fails = E_ok\<lparr>invoke_response := (\<lambda>k m h. Inl (Exception ''GenerationError''))\<rparr>"

definition E_store_down :: env where
  "E_store_down = E_ok\<lparr>cosmos_fault := (\<lambda>k. Some (Exception ''StoreError''))\<rparr>"

definition E_write_fails :: env where
  "E_write_fails =
     E_ok\<lparr>cosmos_fault := (\<lambda>k. if k = 3 then Some (Exception ''StoreError'') else None)\<rparr>"

definition E_unavailable :: env where
  "E_unavailable = E_ok\<lparr>analyze_text_response := (\<lambda>k t. Inl (HttpResponseError ''503''))\<rparr>"

definition turn_a1 :: item where
  "turn_a1 = \<lparr>item_id = ''1.5'', user_message = ''a'', bot_response = ''b'',
               timestamp = ''T1'', userId = ''alice''\<rparr>"

definition turn_b1 :: item where
  "turn_b1 = \<lparr>item_id = ''2.5'', user_message = ''c'', bot_response = ''d'',
               timestamp = ''T2'', userId = ''bob''\<rparr>"

definition turn_a2 :: item where
  "turn_a2 = \<lparr>item_id = ''3.5'', user_message = ''e'', bot_response = ''f'',
               timestamp = ''T3'', userId = ''alice''\<rparr>"

definition w_two_users :: world where
  "w_two_users = \<lparr>container = [turn_a1, turn_b1, turn_a2], stdout = [], calls = []\<rparr>"

definition w_stored :: world where
  "w_stored = \<lparr>container = [turn_hello], stdout = [], calls = []\<rparr>"

definition turn_again :: item where
  "turn_again = \<lparr>item_id = ''9.5'', user_message = ''Again'', bot_response = ''Yes'',
                  timestamp = ''T9'', userId = ''alice''\<rparr>"

definition turn_at :: "string \<Rightarrow> item" where
  "turn_at t = \<lparr>item_id = t, user_message = ''m'' @ t, bot_response = ''r'' @ t,
                 timestamp = t, userId = ''alice''\<rparr>"

definition w_six :: world where
  "w_six = \<lparr>container = [turn_at ''3'', turn_at ''1'', turn_at ''6'', turn_b1, turn_at ''2'',
                          turn_at ''5'', turn_at ''4''],
            stdout = [], calls = []\<rparr>"

section \<open>Basic facts\<close>

lemma all_TextCategory: "(\<forall>c. P c) = (P HATE \<and> P SELF_HARM \<and> P SEXUAL \<and> P VIOLENCE)"
  by (metis TextCategory.exhaust)

lemma unsafe_result_iff:
  "unsafe_result (next_category c response) = (2 \<le> category_severity c response)"
  by (simp add: unsafe_result_def category_severity_def threshold_def split: option.splits)

lemma print_simps [simp]:
  "calls (print s w) = calls w" "container (print s w) = container w"
  "stdout (print s w) = stdout w @ [s @ newline]"
  by (simp_all add: print_def)

lemma prompt_simps [simp]:
  "calls (prompt s w) = calls w" "container (prompt s w) = container w"
  "stdout (prompt s w) = stdout w @ [s]"
  by (simp_all add: prompt_def)

lemma issue_simps [simp]:
  "calls (issue c w) = calls w @ [c]" "container (issue c w) = container w"
  "stdout (issue c w) = stdout w"
  by (simp_all add: issue_def)

lemma print_results_simps [simp]:
  "calls (print_results rs w) = calls w" "container (print_results rs w) = container w"
  by (induction rs w rule: print_results.induct; simp split: option.splits)+

lemma replay_simps [simp]:
  "replay [] c = c" "replay (x # xs) c = replay xs (apply_call x c)"
  "replay (xs @ ys) c = replay ys (replay xs c)"
  by (simp_all add: replay_def)

lemma lower_simps [simp]:
  "lower [] = []" "lower (c # cs) = lower_char c # lower cs"
  by (simp_all add: lower_def)

subsection \<open>What each method does to the world\<close>

lemma analyze_text_effect:
  assumes "analyze_text E text w = (r, w1)"
  shows "calls w1 = calls w @ [AnalyzeText text (analyze_text_response E (length (calls w)) text)]"
    and "container w1 = container w"
    and "r = (case analyze_text_response E (length (calls w)) text of
                Inr response \<Rightarrow>
                  Inr (Some (verdict_safe response,
                    [(''hate'', next_category HATE response),
                     (''self_harm'', next_category SELF_HARM response),
                     (''sexual'', next_category SEXUAL response),
                     (''violence'', next_category VIOLENCE response)]))
              | Inl (HttpResponseError m) \<Rightarrow> Inr None
              | Inl e \<Rightarrow> Inl e)"
  using assms
  by (auto simp: analyze_text_def content_safety_analyze_text_def Let_def verdict_safe_def
      all_TextCategory unsafe_result_iff not_le simp del: print_results.simps
      split: sum.splits error.splits)

lemma load_effect:
  assumes "load_historical_context E uid w = (r, w1)"
  shows "calls w1 = calls w @ [QueryItems True uid (cosmos_fault E (length (calls w)))]"
    and "container w1 = container w"
    and "stdout w1 = stdout w"
    and "r = (case cosmos_fault E (length (calls w)) of
                Some e \<Rightarrow> Inl e
              | None \<Rightarrow> Inr (join newline (map render (take 5 (query_items True uid (container w))))))"
  using assms
  by (auto simp: load_historical_context_def load_historical_context_sync_def
      container_query_items_def Let_def split: option.splits)

lemma chat_effect:
  assumes "chat_with_kernel E m h w = (r, w1)"
  shows "calls w1 = calls w @ [Invoke m h r]"
    and "container w1 = container w"
    and "stdout w1 = stdout w"
    and "r = invoke_response E (length (calls w)) m h"
  using assms
  by (auto simp: chat_with_kernel_def kernel_invoke_def Let_def)

lemma store_effect:
  assumes "store_interaction E uid m resp w = (r, w1)"
  shows "\<exists>d. calls w1 = calls w @ [UpsertItem d (cosmos_fault E (length (calls w)))]
           \<and> d = \<lparr>item_id = str_timestamp (utcnow E (length (calls w))), user_message = m,
                   bot_response = resp, timestamp = isoformat (utcnow E (length (calls w))),
                   userId = uid\<rparr>
           \<and> container w1 = replay [UpsertItem d (cosmos_fault E (length (calls w)))] (container w)
           \<and> stdout w1 = stdout w
           \<and> r = (case cosmos_fault E (length (calls w)) of Some e \<Rightarrow> Inl e | None \<Rightarrow> Inr ())"
  using assms
  by (auto simp: store_interaction_def store_interaction_sync_def container_upsert_item_def Let_def
      split: option.splits)

lemma delete_items_effect:
  "delete_items E uid ds w = (r, w1) \<Longrightarrow>
   stdout w1 = stdout w \<and>
   (\<exists>seg. calls w1 = calls w @ seg \<and> container w1 = replay seg (container w) \<and>
      ((r = Inr () \<and> seg = map (\<lambda>d. DeleteItem d uid None) ds) \<or>
       (\<exists>e ds' d. r = Inl e \<and> seg = map (\<lambda>d. DeleteItem d uid None) ds' @ [DeleteItem d uid (Some e)])))"
proof (induction ds arbitrary: w)
  case Nil
  then show ?case by auto
next
  case (Cons d ds)
  obtain r0 w0 where s: "container_delete_item E d uid w = (r0, w0)" by fastforce
  show ?case
  proof (cases r0)
    case (Inl e)
    with s Cons.prems have "r = Inl e" "w1 = w0" by auto
    moreover from s Inl have "stdout w0 = stdout w" "calls w0 = calls w @ [DeleteItem d uid (Some e)]"
      "container w0 = container w"
      by (auto simp: container_delete_item_def split: sum.splits option.splits)
    ultimately show ?thesis 
      by (auto intro!: exI[of _ "[DeleteItem d uid (Some e)]"] exI[of _ "[]"])
  next
    case (Inr u)
    with s Cons.prems have rest: "delete_items E uid ds w0 = (r, w1)" by auto
    from s Inr have e0: "stdout w0 = stdout w" "calls w0 = calls w @ [DeleteItem d uid None]"
      "container w0 = replay [DeleteItem d uid None] (container w)"
      by (auto simp: container_delete_item_def delete_item_def split: sum.splits option.splits if_splits)
    from Cons.IH[OF rest] obtain seg where
      seg: "stdout w1 = stdout w0" "calls w1 = calls w0 @ seg" "container w1 = replay seg (container w0)"
        "(r = Inr () \<and> seg = map (\<lambda>d. DeleteItem d uid None) ds) \<or>
         (\<exists>e ds' d. r = Inl e \<and> seg = map (\<lambda>d. DeleteItem d uid None) ds' @ [DeleteItem d uid (Some e)])"
      by blast
    from seg(4) have
       "(r = Inr () \<and> DeleteItem d uid None # seg = map (\<lambda>d. DeleteItem d uid None) (d # ds)) \<or>
         (\<exists>e ds' d'. r = Inl e \<and> DeleteItem d uid None # seg = map (\<lambda>d. DeleteItem d uid None) ds' @ [DeleteItem d' uid (Some e)])"
    proof
      assume "r = Inr () \<and> seg = map (\<lambda>d. DeleteItem d uid None) ds"
      then show ?thesis by simp
    next
      assume "\<exists>e ds' d. r = Inl e \<and> seg = map (\<lambda>d. DeleteItem d uid None) ds' @ [DeleteItem d uid (Some e)]"
      then obtain e ds' d' where "r = Inl e" "seg = map (\<lambda>d. DeleteItem d uid None) ds' @ [DeleteItem d' uid (Some e)]"
        by blast
      then have "r = Inl e \<and> DeleteItem d uid None # seg = map (\<lambda>d. DeleteItem d uid None) (d # ds') @ [DeleteItem d' uid (Some e)]"
        by simp
      then show ?thesis by blast
    qed
    with seg e0 show ?thesis
      by (intro conjI exI[of _ "DeleteItem d uid None # seg"]) simp_all
  qed
qed


lemma clear_effect:
  assumes "clear_historical_context E uid w = (r, w1)"
  shows "stdout w1 = stdout w \<and>
   (\<exists>seg. calls w1 = calls w @ seg \<and> container w1 = replay seg (container w) \<and>
      ((r = Inr () \<and> (\<exists>ds. seg = QueryItems False uid None # map (\<lambda>d. DeleteItem d uid None) ds)) \<or>
       (\<exists>e. r = Inl e \<and> seg = [QueryItems False uid (Some e)]) \<or>
       (\<exists>e ds d. r = Inl e \<and>
          seg = QueryItems False uid None # map (\<lambda>d. DeleteItem d uid None) ds @ [DeleteItem d uid (Some e)])))"
proof (cases "cosmos_fault E (length (calls w))")
  case (Some e)
  with assms have "r = Inl e" "w1 = issue (QueryItems False uid (Some e)) w"
    by (auto simp: clear_historical_context_def clear_historical_context_sync_def
        container_query_items_def Let_def)
  then show ?thesis by simp
next
  case None
  let ?w0 = "issue (QueryItems False uid None) w"
  from None assms have "delete_items E uid (query_items False uid (container w)) ?w0 = (r, w1)"
    by (auto simp: clear_historical_context_def clear_historical_context_sync_def
        container_query_items_def Let_def)
  from delete_items_effect[OF this] obtain seg where
    seg: "stdout w1 = stdout ?w0" "calls w1 = calls ?w0 @ seg" "container w1 = replay seg (container ?w0)"
      "(r = Inr () \<and> seg = map (\<lambda>d. DeleteItem d uid None) (query_items False uid (container w))) \<or>
       (\<exists>e ds' d. r = Inl e \<and> seg = map (\<lambda>d. DeleteItem d uid None) ds' @ [DeleteItem d uid (Some e)])"
    by blast
  from seg(4) have
    "(r = Inr () \<and> (\<exists>ds. QueryItems False uid None # seg = QueryItems False uid None # map (\<lambda>d. DeleteItem d uid None) ds)) \<or>
       (\<exists>e ds d. r = Inl e \<and>
          QueryItems False uid None # seg = QueryItems False uid None # map (\<lambda>d. DeleteItem d uid None) ds @ [DeleteItem d uid (Some e)])"
    by auto
  with seg(1,2,3) show ?thesis
    by (intro conjI exI[of _ "QueryItems False uid None # seg"]) auto
qed

lemma loop_body_trace:
  assumes "loop_body E uid line w = (r, w1)"
  shows "\<exists>seg. calls w1 = calls w @ seg \<and> container w1 = replay seg (container w)
           \<and> turn_seg uid line r seg"
proof -
  consider (exit) "lower line = ''exit''"
    | (history) "lower line \<noteq> ''exit''" "lower line = ''history''"
    | (clear) "lower line \<noteq> ''exit''" "lower line \<noteq> ''history''" "lower line = ''clear''"
    | (message) "lower line \<noteq> ''exit''" "lower line \<noteq> ''history''" "lower line \<noteq> ''clear''"
    by blast
  then show ?thesis
  proof cases
    case exit
    with assms have "r = Inr Break" "w1 = w" by (auto simp: loop_body_def)
    then show ?thesis by (auto intro: seg_exit)
  next
    case history
    obtain r0 w0 where l: "load_historical_context E uid w = (r0, w0)" by fastforce
    note eff = load_effect[OF l]
    show ?thesis
    proof (cases "cosmos_fault E (length (calls w))")
      case None
      with eff l assms history have "r = Inr Continue" "calls w1 = calls w @ [QueryItems True uid None]"
        "container w1 = container w"
        by (auto simp: loop_body_def)
      then show ?thesis by (auto intro: seg_history)
    next
      case (Some e)
      with eff l assms history have "r = Inl e" "calls w1 = calls w @ [QueryItems True uid (Some e)]"
        "container w1 = container w"
        by (auto simp: loop_body_def)
      then show ?thesis by (auto intro: seg_history_fail)
    qed
  next
    case clear
    obtain r0 w0 where c: "clear_historical_context E uid w = (r0, w0)" by fastforce
    from clear_effect[OF c] obtain seg where
      seg: "calls w0 = calls w @ seg" "container w0 = replay seg (container w)"
        "(r0 = Inr () \<and> (\<exists>ds. seg = QueryItems False uid None # map (\<lambda>d. DeleteItem d uid None) ds)) \<or>
       (\<exists>e. r0 = Inl e \<and> seg = [QueryItems False uid (Some e)]) \<or>
       (\<exists>e ds d. r0 = Inl e \<and>
          seg = QueryItems False uid None # map (\<lambda>d. DeleteItem d uid None) ds @ [DeleteItem d uid (Some e)])"
      by blast
    from c assms clear have rw: "r = (case r0 of Inl e \<Rightarrow> Inl e | Inr u \<Rightarrow> Inr Continue)"
      "calls w1 = calls w0" "container w1 = container w0"
      by (auto simp: loop_body_def split: sum.splits)
    from seg(3) rw(1) have "turn_seg uid line r seg"
      by (auto intro: seg_clear seg_clear_query_fail seg_clear_delete_fail)
    with seg rw show ?thesis by auto
  next
    case message
    obtain r0 w0 where a: "analyze_text E line w = (r0, w0)" by fastforce
    note ea = analyze_text_effect[OF a]
    let ?k = "length (calls w)"
    show ?thesis
    proof (cases "analyze_text_response E ?k line")
      case (Inl e)
      show ?thesis
      proof (cases "\<exists>m. e = HttpResponseError m")
        case True
        then obtain m where "e = HttpResponseError m" by blast
        with Inl ea a assms message have "r = Inl TypeError" 
          "calls w1 = calls w @ [AnalyzeText line (Inl (HttpResponseError m))]" "container w1 = container w"
          by (auto simp: loop_body_def)
        then show ?thesis by (auto intro: seg_classify_caught)
      next
        case False
        with Inl ea a assms message have "r = Inl e" 
          "calls w1 = calls w @ [AnalyzeText line (Inl e)]" "container w1 = container w"
          by (auto simp: loop_body_def split: error.splits)
        with False show ?thesis by (auto intro: seg_classify_raise)
      qed
    next
      case (Inr response)
      with ea have r0: "\<exists>results. r0 = Inr (Some (verdict_safe response, results))"
        and c0: "calls w0 = calls w @ [AnalyzeText line (Inr response)]" "container w0 = container w"
        by auto
      show ?thesis
      proof (cases "verdict_safe response")
        case False
        with r0 c0 a assms message have "r = Inr Continue" 
          "calls w1 = calls w @ [AnalyzeText line (Inr response)]" "container w1 = container w"
          by (auto simp: loop_body_def)
        with False show ?thesis by (auto intro: seg_unsafe)
      next
        case True
        obtain r2 w2 where l: "load_historical_context E uid w0 = (r2, w2)" by fastforce
        note el = load_effect[OF l]
        show ?thesis
        proof (cases "cosmos_fault E (length (calls w0))")
          case (Some e)
          with True r0 c0 a l el assms message have "r = Inl e" 
            "calls w1 = calls w @ [AnalyzeText line (Inr response), QueryItems True uid (Some e)]"
            "container w1 = container w"
            by (auto simp: loop_body_def)
          with True show ?thesis by (auto intro: seg_read_fail)
        next
          case None
          with el obtain h where h: "r2 = Inr h" 
            and c2: "calls w2 = calls w @ [AnalyzeText line (Inr response), QueryItems True uid None]"
               "container w2 = container w"
            using c0 by auto
          obtain r3 w3 where g: "chat_with_kernel E line h w2 = (r3, w3)" by fastforce
          note eg = chat_effect[OF g]
          show ?thesis
          proof (cases r3)
            case (Inl e)
            with True r0 a l h g eg(1,2) c2 assms message have "r = Inl e" 
              "calls w1 = calls w @ [AnalyzeText line (Inr response), QueryItems True uid None, Invoke line h (Inl e)]"
              "container w1 = container w"
              by (auto simp: loop_body_def)
            with True show ?thesis by (auto intro: seg_generation_fail)
          next
            case (Inr resp)
            let ?w3 = "print (''Chatbot: '' @ resp) w3"
            obtain r4 w4 where st: "store_interaction E uid line resp ?w3 = (r4, w4)" by fastforce
            from store_effect[OF st] obtain d where
              d: "calls w4 = calls ?w3 @ [UpsertItem d (cosmos_fault E (length (calls ?w3)))]"
                 "user_message d = line" "bot_response d = resp" "userId d = uid"
                 "container w4 = replay [UpsertItem d (cosmos_fault E (length (calls ?w3)))] (container ?w3)"
                 "r4 = (case cosmos_fault E (length (calls ?w3)) of Some e \<Rightarrow> Inl e | None \<Rightarrow> Inr ())"
              by auto
            let ?f = "cosmos_fault E (length (calls ?w3))"
            from True r0 a l h g Inr st assms message have rw: "w1 = w4" 
               "r = (case r4 of Inl e \<Rightarrow> Inl e | Inr u \<Rightarrow> Inr Continue)"
              by (auto simp: loop_body_def split: sum.splits)
            have cw: "calls w1 = calls w @ [AnalyzeText line (Inr response), QueryItems True uid None,
                   Invoke line h (Inr resp), UpsertItem d ?f]"
              using rw d(1) eg(1) c2(1) Inr by simp
            have co: "container w1 = replay [AnalyzeText line (Inr response), QueryItems True uid None,
                   Invoke line h (Inr resp), UpsertItem d ?f] (container w)"
              using rw d(5) eg(2) c2(2) by simp
            have "turn_seg uid line r [AnalyzeText line (Inr response), QueryItems True uid None,
                   Invoke line h (Inr resp), UpsertItem d ?f]"
            proof (cases ?f)
              case None
              with rw d(6) have "r = Inr Continue" by simp
              with None True d show ?thesis by (auto intro: seg_write)
            next
              case (Some e)
              with rw d(6) have "r = Inl e" by simp
              with Some True d show ?thesis by (auto intro: seg_write_fail)
            qed
            with cw co show ?thesis by blast
          qed
        qed
      qed
    qed
  qed
qed

lemma main_loop_trace:
  "main_loop E uid lines w = (r, w') \<Longrightarrow>
   \<exists>N. calls w' = calls w @ N \<and> container w' = replay N (container w) \<and> session_trace uid r N"
proof (induction lines arbitrary: w)
  case Nil
  then show ?case by (auto intro: session_eof)
next
  case (Cons line rest)
  obtain r1 w1 where b: "loop_body E uid line (prompt ''You: '' w) = (r1, w1)" by fastforce
  from loop_body_trace[OF b] obtain seg where
    seg: "calls w1 = calls w @ seg" "container w1 = replay seg (container w)" "turn_seg uid line r1 seg"
    by auto
  show ?case
  proof (cases r1)
    case (Inl e)
    with b Cons.prems have "r = Inl e" "w' = w1" by auto
    with seg Inl show ?thesis by (auto intro: session_raise)
  next
    case (Inr c)
    show ?thesis
    proof (cases c)
      case Break
      with Inr b Cons.prems have "r = Inr ()" "w' = w1" by auto
      with seg Inr Break show ?thesis by (auto intro: session_break)
    next
      case Continue
      with Inr b Cons.prems have "main_loop E uid rest w1 = (r, w')" by auto
      from Cons.IH[OF this] obtain N where
        N: "calls w' = calls w1 @ N" "container w' = replay N (container w1)" "session_trace uid r N"
        by auto
      from seg(3) Inr Continue N(3) have "session_trace uid r (seg @ N)"
        by (auto intro: session_continue)
      with seg N show ?thesis by (intro exI[of _ "seg @ N"]) simp
    qed
  qed
qed

subsection \<open>Positions in a trace\<close>

lemma append_split:
  "seg @ N = pre @ c # post \<Longrightarrow>
   (\<exists>q. seg = pre @ c # q \<and> post = q @ N) \<or> (\<exists>p. pre = seg @ p \<and> N = p @ c # post)"
  by (auto simp: append_eq_append_conv2 append_eq_Cons_conv)

lemma only_last:
  assumes "seg = pre @ c # post" and "\<forall>x\<in>set (butlast seg). \<not> Q x" and "Q c"
  shows "post = [] \<and> pre = butlast seg \<and> c = last seg"
proof (cases post rule: rev_cases)
  case Nil
  with assms(1) show ?thesis by simp
next
  case (snoc ys y)
  with assms(1) have "butlast seg = pre @ c # ys" by (simp add: butlast_append)
  with assms(2,3) show ?thesis by auto
qed

lemma turn_seg_failure:
  assumes "turn_seg uid line r seg"
  shows "(\<forall>x\<in>set (butlast seg). call_failure x = None)
       \<and> (\<forall>e. seg \<noteq> [] \<and> call_failure (last seg) = Some e \<longrightarrow> r = Inl e)"
  using assms
  by (cases rule: turn_seg.cases) (auto simp: butlast_append last_map dest!: in_set_butlastD)

lemma turn_seg_failure_last:
  assumes "turn_seg uid line r seg" "seg = pre @ c # post" "call_failure c = Some e"
  shows "post = [] \<and> r = Inl e"
proof -
  from turn_seg_failure[OF assms(1)] have
    a: "\<forall>x\<in>set (butlast seg). \<not> (call_failure x \<noteq> None)"
    and b: "\<forall>e. seg \<noteq> [] \<and> call_failure (last seg) = Some e \<longrightarrow> r = Inl e" by auto
  from assms(3) have "call_failure c \<noteq> None" by simp
  from only_last[OF assms(2) a this] have p: "post = []" by simp
  with assms(2) have "seg \<noteq> []" "last seg = c" by simp_all
  with b assms(3) have "r = Inl e" by simp
  with p show ?thesis by simp
qed

lemma session_trace_failure:
  "session_trace uid r N \<Longrightarrow> N = pre @ c # post \<Longrightarrow> call_failure c = Some e \<Longrightarrow>
   post = [] \<and> r = Inl e"
proof (induction arbitrary: pre rule: session_trace.induct)
  case session_eof
  then show ?case by simp
next
  case (session_break line seg)
  from turn_seg_failure_last[OF session_break(1) session_break(2) session_break(3)]
  show ?case by simp
next
  case (session_raise line e' seg)
  from turn_seg_failure_last[OF session_raise(1) session_raise(2) session_raise(3)]
  show ?case by simp
next
  case (session_continue line seg r N)
  from append_split[OF session_continue.prems(1)]
  show ?case
  proof
    assume "\<exists>q. seg = pre @ c # q \<and> post = q @ N"
    then obtain q where "seg = pre @ c # q" by blast
    from turn_seg_failure_last[OF session_continue.hyps(1) this session_continue.prems(2)]
    show ?thesis by simp
  next
    assume "\<exists>p. pre = seg @ p \<and> N = p @ c # post"
    then obtain p where "N = p @ c # post" by blast
    from session_continue.IH[OF this session_continue.prems(2)] show ?thesis .
  qed
qed

section \<open>Evaluating sessions\<close>

text \<open>The definitions a concrete session unfolds to.\<close>

lemmas run_defs =
  loop_body_def lower_char_def analyze_text_def content_safety_analyze_text_def
  Let_def next_category_def unsafe_result_def threshold_def
  load_historical_context_def load_historical_context_sync_def container_query_items_def
  query_items_def chat_with_kernel_def kernel_invoke_def store_interaction_def
  store_interaction_sync_def container_upsert_item_def upsert_item_def
  clear_historical_context_def clear_historical_context_sync_def container_delete_item_def
  delete_item_def issue_def print_def prompt_def

lemma verdict_safe_example: "verdict_safe [\<lparr>category = HATE, severity = 0\<rparr>]"
  by (simp add: verdict_safe_def all_TextCategory category_severity_def next_category_def)

lemma generation_failure_session:
  "calls (snd (main_loop E_generation_fails ''alice'' [''Hello'', ''history''] w_empty)) =
     [AnalyzeText ''Hello'' (Inr [\<lparr>category = HATE, severity = 0\<rparr>]),
      QueryItems True ''alice'' None, Invoke ''Hello'' [] (Inl (Exception ''GenerationError''))]"
  by (simp add: run_defs E_generation_fails_def E_ok_def w_empty_def)

lemma store_failure_session:
  "calls (snd (main_loop E_store_down ''alice'' [''history'', ''Hello''] w_empty)) =
     [QueryItems True ''alice'' (Some (Exception ''StoreError''))]"
  by (simp add: run_defs E_store_down_def E_ok_def w_empty_def)

section \<open>The properties\<close>

subsection \<open>Failures of generation and of the store\<close>

text \<open>
  Claim C5. In every session, a call of the generation kernel or of the container that
  raises an exception is the last call the session issues, and the session ends with
  that exception as its result, whatever input is left: nothing in the loop catches it.
\<close>

theorem failures_terminate_session:
  assumes "main_loop E uid lines w = (r, w')"
      and "calls w' = calls w @ pre @ c # post"
      and "call_failure c = Some e"
  shows "post = [] \<and> r = Inl e"
proof -
  from main_loop_trace[OF assms(1)] obtain N where
    "calls w' = calls w @ N" "session_trace uid r N" by blast
  with assms(2) have "N = pre @ c # post" by simp
  from session_trace_failure[OF \<open>session_trace uid r N\<close> this assms(3)] show ?thesis .
qed

theorem failures_terminate_session_witness:
  "fst (main_loop E_generation_fails ''alice'' [''Hello'', ''history''] w_empty)
     = Inl (Exception ''GenerationError'')
   \<and> fst (main_loop E_store_down ''alice'' [''history'', ''Hello''] w_empty)
     = Inl (Exception ''StoreError'')"
proof -
  let ?run = "main_loop E_generation_fails ''alice'' [''Hello'', ''history''] w_empty"
  have run: "?run = (fst ?run, snd ?run)" by simp
  have c: "calls (snd ?run) = calls w_empty @
     [AnalyzeText ''Hello'' (Inr [\<lparr>category = HATE, severity = 0\<rparr>]),
      QueryItems True ''alice'' None] @ Invoke ''Hello'' [] (Inl (Exception ''GenerationError'')) # []"
    using generation_failure_session by (simp add: w_empty_def)
  have f: "call_failure (Invoke ''Hello'' [] (Inl (Exception ''GenerationError'')))
             = Some (Exception ''GenerationError'')" by simp
  let ?run2 = "main_loop E_store_down ''alice'' [''history'', ''Hello''] w_empty"
  have run2: "?run2 = (fst ?run2, snd ?run2)" by simp
  have c2: "calls (snd ?run2) = calls w_empty @
     [] @ QueryItems True ''alice'' (Some (Exception ''StoreError'')) # []"
    using store_failure_session by (simp add: w_empty_def)
  have f2: "call_failure (QueryItems True ''alice'' (Some (Exception ''StoreError'')))
             = Some (Exception ''StoreError'')" by simp
  from failures_terminate_session[OF run c f] failures_terminate_session[OF run2 c2 f2]
  show ?thesis by simp
qed

subsection \<open>The safety verdict\<close>

lemma next_category_distinct:
  "distinct (map category response) \<Longrightarrow> a \<in> set response \<Longrightarrow>
   next_category (category a) response = Some a"
  unfolding next_category_def
  by (induction response) (auto simp: rev_image_eqI)

lemma next_category_Some:
  "next_category c response = Some a \<Longrightarrow> a \<in> set response \<and> category a = c"
  unfolding next_category_def
  by (auto simp: find_Some_iff)

lemma severity_present:
  "(\<forall>c. category_severity c response < 2) =
   (\<forall>c a. next_category c response = Some a \<longrightarrow> severity a < 2)"
proof
  assume l: "\<forall>c. category_severity c response < 2"
  show "\<forall>c a. next_category c response = Some a \<longrightarrow> severity a < 2"
  proof (intro allI impI)
    fix c a assume "next_category c response = Some a"
    then have "category_severity c response = severity a" by (simp add: category_severity_def)
    with l show "severity a < 2" by metis
  qed
next
  assume r: "\<forall>c a. next_category c response = Some a \<longrightarrow> severity a < 2"
  show "\<forall>c. category_severity c response < 2"
  proof
    fix c
    show "category_severity c response < 2"
      using r by (cases "next_category c response") (simp_all add: category_severity_def)
  qed
qed

lemma severity_all_entries:
  assumes "distinct (map category response)"
  shows "(\<forall>c. category_severity c response < 2) = (\<forall>a\<in>set response. severity a < 2)"
proof -
  have "(\<forall>c a. next_category c response = Some a \<longrightarrow> severity a < 2)
        = (\<forall>a\<in>set response. severity a < 2)"
    using next_category_distinct[OF assms] next_category_Some by blast
  then show ?thesis by (simp only: severity_present)
qed

text \<open>
  Claim C2. When the classification service answers, \<open>analyze_text\<close> returns the first
  entry of the response for each of the four categories, and \<open>is_safe\<close> is true exactly
  when every category has a severity below 2, an absent category counting as severity
  zero; that is, exactly when every category that is present has a severity below 2.
  When the response holds each category at most once, the entries that decide are all
  the entries of the response.
\<close>

theorem analyze_text_is_safe:
  assumes "analyze_text_response E (length (calls w)) text = Inr response"
  shows "fst (analyze_text E text w) =
           Inr (Some (\<forall>c. category_severity c response < 2,
                      [(''hate'', next_category HATE response),
                       (''self_harm'', next_category SELF_HARM response),
                       (''sexual'', next_category SEXUAL response),
                       (''violence'', next_category VIOLENCE response)]))
       \<and> ((\<forall>c. category_severity c response < 2) =
            (\<forall>c a. next_category c response = Some a \<longrightarrow> severity a < 2))
       \<and> (distinct (map category response) \<longrightarrow>
            (\<forall>c. category_severity c response < 2) = (\<forall>a\<in>set response. severity a < 2))"
proof -
  obtain r w1 where a: "analyze_text E text w = (r, w1)" by fastforce
  from analyze_text_effect(3)[OF a] assms a have
    "fst (analyze_text E text w) =
           Inr (Some (\<forall>c. category_severity c response < 2,
                      [(''hate'', next_category HATE response),
                       (''self_harm'', next_category SELF_HARM response),
                       (''sexual'', next_category SEXUAL response),
                       (''violence'', next_category VIOLENCE response)]))"
    by (simp add: verdict_safe_def)
  with severity_present severity_all_entries show ?thesis by blast
qed

theorem analyze_text_is_safe_witness:
  "fst (analyze_text E_ok ''Hello'' w_empty) =
     Inr (Some (True, [(''hate'', Some \<lparr>category = HATE, severity = 0\<rparr>),
                       (''self_harm'', None), (''sexual'', None), (''violence'', None)]))
   \<and> fst (analyze_text (E_ok\<lparr>analyze_text_response :=
             (\<lambda>k t. Inr [\<lparr>category = SEXUAL, severity = 1\<rparr>, \<lparr>category = HATE, severity = 2\<rparr>])\<rparr>)
             ''Hello'' w_empty) =
     Inr (Some (False, [(''hate'', Some \<lparr>category = HATE, severity = 2\<rparr>),
                       (''self_harm'', None), (''sexual'', Some \<lparr>category = SEXUAL, severity = 1\<rparr>),
                       (''violence'', None)]))"
proof -
  let ?E = "E_ok\<lparr>analyze_text_response :=
             (\<lambda>k t. Inr [\<lparr>category = SEXUAL, severity = 1\<rparr>, \<lparr>category = HATE, severity = 2\<rparr>])\<rparr>"
  have 1: "analyze_text_response E_ok (length (calls w_empty)) ''Hello''
             = Inr [\<lparr>category = HATE, severity = 0\<rparr>]"
    by (simp add: E_ok_def)
  have 2: "analyze_text_response ?E (length (calls w_empty)) ''Hello''
             = Inr [\<lparr>category = SEXUAL, severity = 1\<rparr>, \<lparr>category = HATE, severity = 2\<rparr>]"
    by simp
  from analyze_text_is_safe[OF 1] analyze_text_is_safe[OF 2] show ?thesis
    by (simp add: all_TextCategory category_severity_def next_category_def)
qed

subsection \<open>Writing a turn\<close>

lemma upsert_item_member: "d \<in> set (upsert_item d c)"
  by (auto simp: upsert_item_def list_ex_iff same_key_def)

lemma upsert_item_key: "x \<in> set (upsert_item d c) \<Longrightarrow> same_key x d \<Longrightarrow> x = d"
  by (auto simp: upsert_item_def list_ex_iff split: if_splits)

lemma upsert_item_others:
  "filter (\<lambda>x. \<not> same_key x d) (upsert_item d c) = filter (\<lambda>x. \<not> same_key x d) c"
proof -
  have d: "same_key d d" by (simp add: same_key_def)
  have "filter (\<lambda>x. \<not> same_key x d) (map (\<lambda>x. if same_key x d then d else x) c)
          = filter (\<lambda>x. \<not> same_key x d) c"
    using d by (induction c) auto
  with d show ?thesis by (simp add: upsert_item_def)
qed

lemma upsert_item_length:
  "length (upsert_item d c) = (if list_ex (\<lambda>x. same_key x d) c then length c else Suc (length c))"
  by (simp add: upsert_item_def)

lemma wf_upsert_item:
  assumes "wf_container c"
  shows "wf_container (upsert_item d c)"
proof (cases "list_ex (\<lambda>x. same_key x d) c")
  case False
  then have "(userId d, item_id d) \<notin> set (map (\<lambda>d. (userId d, item_id d)) c)"
    by (auto simp: list_ex_iff same_key_def)
  with assms False show ?thesis by (simp add: upsert_item_def wf_container_def)
next
  case True
  have m: "map (\<lambda>d. (userId d, item_id d)) (map (\<lambda>x. if same_key x d then d else x) c)
          = map (\<lambda>d. (userId d, item_id d)) c"
    by (induction c) (auto simp: same_key_def)
  from True have "upsert_item d c = map (\<lambda>x. if same_key x d then d else x) c"
    by (simp add: upsert_item_def)
  then have "wf_container (upsert_item d c)
               = distinct (map (\<lambda>d. (userId d, item_id d)) (map (\<lambda>x. if same_key x d then d else x) c))"
    by (simp only: wf_container_def)
  with m assms show ?thesis by (simp only: wf_container_def)
qed

text \<open>
  Claim C9. A write that the store accepts upserts one document: its id is
  \<open>str(current_time.timestamp())\<close> and its timestamp \<open>current_time.isoformat()\<close> of one
  reading of the UTC clock, its owner key is the user id of the session, and it holds the
  message and the response. Afterwards the document is in the container, it is the only
  document with its id in its partition, and every other document is as before: when the
  id was taken in the partition the old document is replaced and the container keeps its
  size, with no error; otherwise the container grows by one.
\<close>

theorem store_interaction_writes_turn:
  assumes "cosmos_fault E (length (calls w)) = None"
      and "d = \<lparr>item_id = str_timestamp (utcnow E (length (calls w))),
                 user_message = message, bot_response = chat_response,
                 timestamp = isoformat (utcnow E (length (calls w))),
                 userId = user_id\<rparr>"
  shows "\<exists>w'. store_interaction_sync E user_id message chat_response w = (Inr (), w')
           \<and> calls w' = calls w @ [UpsertItem d None]
           \<and> container w' = upsert_item d (container w)
           \<and> d \<in> set (container w')
           \<and> (\<forall>x\<in>set (container w'). same_key x d \<longrightarrow> x = d)
           \<and> filter (\<lambda>x. \<not> same_key x d) (container w') = filter (\<lambda>x. \<not> same_key x d) (container w)
           \<and> length (container w') =
               (if \<exists>x\<in>set (container w). item_id x = item_id d \<and> userId x = user_id
                then length (container w) else Suc (length (container w)))
           \<and> (wf_container (container w) \<longrightarrow> wf_container (container w'))"
proof -
  let ?w' = "(issue (UpsertItem d None) w)\<lparr>container := upsert_item d (container w)\<rparr>"
  have s: "store_interaction_sync E user_id message chat_response w = (Inr (), ?w')"
    using assms by (simp add: store_interaction_sync_def container_upsert_item_def Let_def)
  have u: "userId d = user_id" using assms(2) by simp
  have l: "length (container ?w') =
               (if \<exists>x\<in>set (container w). item_id x = item_id d \<and> userId x = user_id
                then length (container w) else Suc (length (container w)))"
    using u by (simp add: upsert_item_length list_ex_iff same_key_def)
  have k: "\<forall>x\<in>set (container ?w'). same_key x d \<longrightarrow> x = d"
    using upsert_item_key by simp
  show ?thesis
    using s l k by (intro exI[of _ ?w']) (simp add: upsert_item_member upsert_item_others wf_upsert_item)
qed

theorem store_interaction_writes_turn_witness:
  "fst (store_interaction_sync E_ok ''alice'' ''Again'' ''Yes'' w_stored) = Inr ()
   \<and> container (snd (store_interaction_sync E_ok ''alice'' ''Again'' ''Yes'' w_stored)) = [turn_again]
   \<and> fst (store_interaction_sync E_ok ''bob'' ''Again'' ''Yes'' w_stored) = Inr ()
   \<and> container (snd (store_interaction_sync E_ok ''bob'' ''Again'' ''Yes'' w_stored))
        = [turn_hello, turn_again\<lparr>userId := ''bob''\<rparr>]"
proof -
  have f: "cosmos_fault E_ok (length (calls w_stored)) = None" by (simp add: E_ok_def)
  have d: "turn_again = \<lparr>item_id = str_timestamp (utcnow E_ok (length (calls w_stored))),
                 user_message = ''Again'', bot_response = ''Yes'',
                 timestamp = isoformat (utcnow E_ok (length (calls w_stored))),
                 userId = ''alice''\<rparr>"
    by (simp add: turn_again_def E_ok_def)
  have d2: "turn_again\<lparr>userId := ''bob''\<rparr> = \<lparr>item_id = str_timestamp (utcnow E_ok (length (calls w_stored))),
                 user_message = ''Again'', bot_response = ''Yes'',
                 timestamp = isoformat (utcnow E_ok (length (calls w_stored))),
                 userId = ''bob''\<rparr>"
    by (simp add: turn_again_def E_ok_def)
  have u: "upsert_item turn_again (container w_stored) = [turn_again]"
    by (simp add: upsert_item_def w_stored_def turn_again_def turn_hello_def same_key_def)
  have u2: "upsert_item (turn_again\<lparr>userId := ''bob''\<rparr>) (container w_stored)
              = [turn_hello, turn_again\<lparr>userId := ''bob''\<rparr>]"
    by (simp add: upsert_item_def w_stored_def turn_again_def turn_hello_def same_key_def)
  from store_interaction_writes_turn[OF f d] u
       store_interaction_writes_turn[OF f d2] u2
  show ?thesis by auto
qed

subsection \<open>Clearing the history\<close>

lemma filter_key_other:
  "filter (\<lambda>x. userId x \<noteq> uid) (filter (\<lambda>x. \<not> (item_id x = i \<and> userId x = uid)) c)
     = filter (\<lambda>x. userId x \<noteq> uid) c"
  by (induction c) auto

lemma filter_key_user:
  assumes "wf_container c" "filter (\<lambda>x. userId x = uid) c = d # ds"
  shows "filter (\<lambda>x. userId x = uid) (filter (\<lambda>x. \<not> (item_id x = item_id d \<and> userId x = uid)) c) = ds"
  using assms
proof (induction c)
  case Nil then show ?case by simp
next
  case (Cons a c)
  show ?case
  proof (cases "userId a = uid")
    case False
    with Cons show ?thesis by (simp add: wf_container_def)
  next
    case True
    with Cons.prems have ad: "a = d" and ds: "filter (\<lambda>x. userId x = uid) c = ds" by auto
    from Cons.prems ad True have "\<forall>x\<in>set c. \<not> (item_id x = item_id d \<and> userId x = uid)"
      by (auto simp: wf_container_def rev_image_eqI)
    then have "filter (\<lambda>x. \<not> (item_id x = item_id d \<and> userId x = uid)) c = c"
      by (simp add: filter_id_conv)
    with ad True ds show ?thesis by simp
  qed
qed

lemma wf_filter: "wf_container c \<Longrightarrow> wf_container (filter P c)"
  by (simp add: wf_container_def distinct_map_filter)

lemma delete_items_all:
  assumes "wf_container (container w)"
      and "filter (\<lambda>x. userId x = uid) (container w) = ds"
      and "no_fault_from E (length (calls w))"
  shows "\<exists>w'. delete_items E uid ds w = (Inr (), w')
           \<and> container w' = filter (\<lambda>x. userId x \<noteq> uid) (container w)
           \<and> stdout w' = stdout w
           \<and> calls w' = calls w @ map (\<lambda>d. DeleteItem d uid None) ds"
  using assms
proof (induction ds arbitrary: w)
  case Nil
  then have "filter (\<lambda>x. userId x \<noteq> uid) (container w) = container w"
    by (simp add: filter_id_conv filter_empty_conv)
  then show ?case by simp
next
  case (Cons d ds)
  let ?c = "filter (\<lambda>x. \<not> (item_id x = item_id d \<and> userId x = uid)) (container w)"
  let ?w1 = "(issue (DeleteItem d uid None) w)\<lparr>container := ?c\<rparr>"
  have "d \<in> set (filter (\<lambda>x. userId x = uid) (container w))"
    by (simp add: Cons.prems(2))
  then have "d \<in> set (container w) \<and> userId d = uid" by simp
  then have ex: "list_ex (\<lambda>x. item_id x = item_id d \<and> userId x = uid) (container w)"
    by (auto simp: list_ex_iff)
  from Cons.prems(3) have nf: "cosmos_fault E (length (calls w)) = None"
    by (simp add: no_fault_from_def)
  have step: "container_delete_item E d uid w = (Inr (), ?w1)"
    by (simp add: container_delete_item_def nf delete_item_def ex)
  have a: "wf_container (container ?w1)" using Cons.prems(1) by (simp add: wf_filter)
  have b: "filter (\<lambda>x. userId x = uid) (container ?w1) = ds"
    using filter_key_user[OF Cons.prems(1) Cons.prems(2)] by simp
  have c: "no_fault_from E (length (calls ?w1))"
    using Cons.prems(3) by (simp add: no_fault_from_def)
  from Cons.IH[OF a b c] obtain w' where
    w': "delete_items E uid ds ?w1 = (Inr (), w')"
        "container w' = filter (\<lambda>x. userId x \<noteq> uid) (container ?w1)"
        "stdout w' = stdout ?w1"
        "calls w' = calls ?w1 @ map (\<lambda>d. DeleteItem d uid None) ds"
    by blast
  have e: "filter (\<lambda>x. userId x \<noteq> uid) (container ?w1) = filter (\<lambda>x. userId x \<noteq> uid) (container w)"
    by (auto intro: filter_cong)
  have cw: "container w' = filter (\<lambda>x. userId x \<noteq> uid) (container w)"
    using w'(2) e by (simp only:)
  show ?case
    using w'(1,3,4) cw step by simp
qed

lemma clear_all:
  assumes "wf_container (container w)"
      and "no_fault_from E (length (calls w))"
  shows "\<exists>w'. clear_historical_context_sync E uid w = (Inr (), w')
           \<and> container w' = filter (\<lambda>x. userId x \<noteq> uid) (container w)
           \<and> stdout w' = stdout w
           \<and> calls w' = calls w @ QueryItems False uid None
                # map (\<lambda>d. DeleteItem d uid None) (filter (\<lambda>x. userId x = uid) (container w))"
proof -
  let ?w1 = "issue (QueryItems False uid None) w"
  from assms(2) have nf: "cosmos_fault E (length (calls w)) = None"
    by (simp add: no_fault_from_def)
  have q: "container_query_items E False uid w = (Inr (filter (\<lambda>x. userId x = uid) (container w)), ?w1)"
    by (simp add: container_query_items_def nf query_items_def)
  have a: "wf_container (container ?w1)" using assms(1) by simp
  have b: "filter (\<lambda>x. userId x = uid) (container ?w1) = filter (\<lambda>x. userId x = uid) (container w)"
    by simp
  have c: "no_fault_from E (length (calls ?w1))"
    using assms(2) by (simp add: no_fault_from_def)
  from delete_items_all[OF a b c] show ?thesis
    by (auto simp: clear_historical_context_sync_def q)
qed

text \<open>
  Claim C7. On a container whose ids are unique within a partition, and when no call to
  the store fails, clearing the history of a user returns normally and leaves exactly the
  documents of the other users, in their order and unchanged: every document of the user
  is deleted and no other document is touched.
\<close>

theorem clear_removes_user_only:
  assumes "wf_container (container w)"
      and "no_fault_from E (length (calls w))"
  shows "\<exists>w'. clear_historical_context_sync E uid w = (Inr (), w')
           \<and> container w' = filter (\<lambda>x. userId x \<noteq> uid) (container w)
           \<and> (\<forall>x\<in>set (container w'). userId x \<noteq> uid)
           \<and> filter (\<lambda>x. userId x \<noteq> uid) (container w') = filter (\<lambda>x. userId x \<noteq> uid) (container w)"
proof -
  from clear_all[OF assms] obtain w' where
    w': "clear_historical_context_sync E uid w = (Inr (), w')"
        "container w' = filter (\<lambda>x. userId x \<noteq> uid) (container w)"
    by blast
  then show ?thesis by (intro exI[of _ w']) simp
qed

lemma no_fault_E_ok: "no_fault_from E_ok k"
  by (simp add: no_fault_from_def E_ok_def)

theorem clear_removes_user_only_witness:
  "fst (clear_historical_context_sync E_ok ''alice'' w_two_users) = Inr ()
   \<and> container (snd (clear_historical_context_sync E_ok ''alice'' w_two_users)) = [turn_b1]"
proof -
  have wf: "wf_container (container w_two_users)"
    by (simp add: wf_container_def w_two_users_def turn_a1_def turn_b1_def turn_a2_def)
  have f: "filter (\<lambda>x. userId x \<noteq> ''alice'') (container w_two_users) = [turn_b1]"
    by (simp add: w_two_users_def turn_a1_def turn_b1_def turn_a2_def)
  from clear_removes_user_only[OF wf no_fault_E_ok, of "''alice''"] f show ?thesis by auto
qed

text \<open>
  Claim C8. When the user has no document in the container and no call to the store
  fails, clearing the history twice in a row returns normally both times, and after each
  call the container and the output are as before: each call issues its query and
  nothing else.
\<close>

theorem clear_twice_on_empty_history:
  assumes "filter (\<lambda>x. userId x = uid) (container w) = []"
      and "no_fault_from E (length (calls w))"
  shows "\<exists>w1 w2. clear_historical_context_sync E uid w = (Inr (), w1)
           \<and> container w1 = container w \<and> stdout w1 = stdout w
           \<and> calls w1 = calls w @ [QueryItems False uid None]
           \<and> clear_historical_context_sync E uid w1 = (Inr (), w2)
           \<and> container w2 = container w \<and> stdout w2 = stdout w
           \<and> calls w2 = calls w @ [QueryItems False uid None, QueryItems False uid None]"
proof -
  let ?w1 = "issue (QueryItems False uid None) w"
  let ?w2 = "issue (QueryItems False uid None) ?w1"
  from assms(2) have nf: "cosmos_fault E (length (calls w)) = None"
    "cosmos_fault E (Suc (length (calls w))) = None"
    by (simp_all add: no_fault_from_def)
  have 1: "clear_historical_context_sync E uid w = (Inr (), ?w1)"
    using assms(1) nf(1)
    by (simp add: clear_historical_context_sync_def container_query_items_def query_items_def)
  have 2: "clear_historical_context_sync E uid ?w1 = (Inr (), ?w2)"
    using assms(1) nf(2)
    by (simp add: clear_historical_context_sync_def container_query_items_def query_items_def)
  from 1 2 show ?thesis
    by (intro exI[of _ ?w1] exI[of _ ?w2]) simp
qed

theorem clear_twice_on_empty_history_witness:
  "fst (clear_historical_context_sync E_ok ''carol'' w_two_users) = Inr ()
   \<and> container (snd (clear_historical_context_sync E_ok ''carol'' w_two_users))
        = [turn_a1, turn_b1, turn_a2]
   \<and> fst (clear_historical_context_sync E_ok ''carol''
             (snd (clear_historical_context_sync E_ok ''carol'' w_two_users))) = Inr ()
   \<and> container (snd (clear_historical_context_sync E_ok ''carol''
             (snd (clear_historical_context_sync E_ok ''carol'' w_two_users))))
        = [turn_a1, turn_b1, turn_a2]"
proof -
  have e: "filter (\<lambda>x. userId x = ''carol'') (container w_two_users) = []"
    by (simp add: w_two_users_def turn_a1_def turn_b1_def turn_a2_def)
  have c: "container w_two_users = [turn_a1, turn_b1, turn_a2]" by (simp add: w_two_users_def)
  from clear_twice_on_empty_history[OF e no_fault_E_ok] c show ?thesis by auto
qed

subsection \<open>Reading the history\<close>

lemma join_render: "join newline (map render hs) = join newline (concat (map turn_lines hs))"
proof (induction hs)
  case Nil
  then show ?case by simp
next
  case (Cons d ds)
  show ?case
  proof (cases ds)
    case Nil
    then show ?thesis by (simp add: render_def turn_lines_def)
  next
    case (Cons d' ds')
    with Cons.IH show ?thesis by (simp add: render_def turn_lines_def)
  qed
qed

lemma query_descending:
  "sorted_wrt (\<lambda>a b. timestamp b \<le> timestamp a) (query_items True uid c)"
proof -
  let ?rows = "filter (\<lambda>d. userId d = uid) c"
  have "sorted (map timestamp (sort_key timestamp ?rows))" by (rule sorted_sort_key)
  then have "sorted_wrt (\<lambda>a b. timestamp a \<le> timestamp b) (sort_key timestamp ?rows)"
    by (simp add: sorted_wrt_map)
  then have "sorted_wrt (\<lambda>a b. timestamp b \<le> timestamp a) (rev (sort_key timestamp ?rows))"
    by (simp add: sorted_wrt_rev)
  then show ?thesis by (simp add: query_items_def)
qed

lemma query_mset:
  "mset (query_items True uid c) = mset (filter (\<lambda>d. userId d = uid) c)"
  by (simp add: query_items_def)

lemma join_terminated:
  "xs \<noteq> [] \<Longrightarrow> join sep xs @ sep = concat (map (\<lambda>x. x @ sep) xs)"
  by (induction sep xs rule: join.induct) simp_all

lemma render_terminated:
  "hs \<noteq> [] \<Longrightarrow>
   join newline (map render hs) @ [CHR 0x0A] =
     concat (map (\<lambda>d. ''User: '' @ user_message d @ [CHR 0x0A]
                       @ ''ChatBot: '' @ bot_response d @ [CHR 0x0A]) hs)"
proof -
  assume "hs \<noteq> []"
  then have "map render hs \<noteq> []" by simp
  from join_terminated[OF this, of newline]
  show ?thesis by (simp add: newline_def render_def comp_def)
qed

text \<open>
  Claim C4. When the query does not fail, the history read renders a list \<open>hs\<close> of at
  most five turns of the user, in the order of \<open>hs\<close>: for each turn the line
  \<open>User: ...\<close> with its message and then the line \<open>ChatBot: ...\<close> with its response, the
  lines separated by one newline and the last line not terminated; the text is empty when
  \<open>hs\<close> is. The turns of \<open>hs\<close> are in descending order of their timestamps; together with
  the turns left out they are exactly the turns of the user in the container; turns are
  left out only when \<open>hs\<close> has five; and every turn left out has a timestamp no later
  than every turn of \<open>hs\<close>. The read does not change the container.
\<close>

theorem history_read:
  assumes "cosmos_fault E (length (calls w)) = None"
  shows "\<exists>hs rest text.
           fst (load_historical_context_sync E uid w) = Inr text
         \<and> (hs = [] \<longrightarrow> text = [])
         \<and> (hs \<noteq> [] \<longrightarrow>
               text @ [CHR 0x0A] =
                 concat (map (\<lambda>d. ''User: '' @ user_message d @ [CHR 0x0A]
                                   @ ''ChatBot: '' @ bot_response d @ [CHR 0x0A]) hs))
         \<and> container (snd (load_historical_context_sync E uid w)) = container w
         \<and> length hs \<le> 5
         \<and> (rest = [] \<or> length hs = 5)
         \<and> mset (hs @ rest) = mset (filter (\<lambda>d. userId d = uid) (container w))
         \<and> sorted_wrt (\<lambda>a b. timestamp b \<le> timestamp a) hs
         \<and> (\<forall>h\<in>set hs. \<forall>d\<in>set rest. timestamp d \<le> timestamp h)"
proof -
  let ?L = "query_items True uid (container w)"
  let ?hs = "take 5 ?L" and ?rest = "drop 5 ?L"
  let ?text = "join newline (map render ?hs)"
  have r: "fst (load_historical_context_sync E uid w) = Inr ?text"
    and c: "container (snd (load_historical_context_sync E uid w)) = container w"
    using assms
    by (simp_all add: load_historical_context_sync_def container_query_items_def Let_def)
  have t0: "?hs = [] \<longrightarrow> ?text = []" by simp
  have t1: "?hs \<noteq> [] \<longrightarrow>
               ?text @ [CHR 0x0A] =
                 concat (map (\<lambda>d. ''User: '' @ user_message d @ [CHR 0x0A]
                                   @ ''ChatBot: '' @ bot_response d @ [CHR 0x0A]) ?hs)"
    using render_terminated by blast
  have l: "length ?hs \<le> 5" by simp
  have e: "?rest = [] \<or> length ?hs = 5" by auto
  have m: "mset (?hs @ ?rest) = mset (filter (\<lambda>d. userId d = uid) (container w))"
    by (simp only: append_take_drop_id query_mset)
  have "sorted_wrt (\<lambda>a b. timestamp b \<le> timestamp a) (?hs @ ?rest)"
    using query_descending by (simp only: append_take_drop_id)
  then have s: "sorted_wrt (\<lambda>a b. timestamp b \<le> timestamp a) ?hs"
    and o: "\<forall>h\<in>set ?hs. \<forall>d\<in>set ?rest. timestamp d \<le> timestamp h"
    unfolding sorted_wrt_append by blast+
  from r t0 t1 c l e m s o show ?thesis by blast
qed

lemma six_query:
  "query_items True ''alice'' (container w_six)
     = [turn_at ''6'', turn_at ''5'', turn_at ''4'', turn_at ''3'', turn_at ''2'', turn_at ''1'']"
  by (simp add: query_items_def w_six_def turn_at_def turn_b1_def)

theorem history_read_witness:
  "fst (load_historical_context_sync E_ok ''alice'' w_six)
     = Inr (''User: m6'' @ [CHR 0x0A] @ ''ChatBot: r6'' @ [CHR 0x0A]
          @ ''User: m5'' @ [CHR 0x0A] @ ''ChatBot: r5'' @ [CHR 0x0A]
          @ ''User: m4'' @ [CHR 0x0A] @ ''ChatBot: r4'' @ [CHR 0x0A]
          @ ''User: m3'' @ [CHR 0x0A] @ ''ChatBot: r3'' @ [CHR 0x0A]
          @ ''User: m2'' @ [CHR 0x0A] @ ''ChatBot: r2'')
   \<and> (\<exists>hs rest text.
           fst (load_historical_context_sync E_ok ''alice'' w_six) = Inr text
         \<and> length hs \<le> 5
         \<and> mset (hs @ rest) = mset (filter (\<lambda>d. userId d = ''alice'') (container w_six))
         \<and> sorted_wrt (\<lambda>a b. timestamp b \<le> timestamp a) hs)"
proof -
  have f: "cosmos_fault E_ok (length (calls w_six)) = None" by (simp add: E_ok_def)
  have v: "fst (load_historical_context_sync E_ok ''alice'' w_six)
     = Inr (''User: m6'' @ [CHR 0x0A] @ ''ChatBot: r6'' @ [CHR 0x0A]
          @ ''User: m5'' @ [CHR 0x0A] @ ''ChatBot: r5'' @ [CHR 0x0A]
          @ ''User: m4'' @ [CHR 0x0A] @ ''ChatBot: r4'' @ [CHR 0x0A]
          @ ''User: m3'' @ [CHR 0x0A] @ ''ChatBot: r3'' @ [CHR 0x0A]
          @ ''User: m2'' @ [CHR 0x0A] @ ''ChatBot: r2'')"
    using f
    by (simp add: load_historical_context_sync_def container_query_items_def six_query
        render_def turn_at_def newline_def)
  from history_read[OF f, of "''alice''"] v show ?thesis by blast
qed

subsection \<open>Failure of the classification\<close>

text \<open>
  Claim C3. When the classification call of a chat message raises \<open>HttpResponseError\<close>,
  \<open>analyze_text\<close> catches it, prints the failure and returns \<open>None\<close>; unpacking \<open>None\<close> in
  \<open>main\<close> raises \<open>TypeError\<close>, which nothing catches. The message is not processed further:
  the classification is the last call, and the container is unchanged. But the session
  ends with \<open>TypeError\<close>, whatever input is left: the loop does not return to its prompt.
\<close>

theorem classification_failure_ends_session:
  assumes "lower line \<noteq> ''exit''" "lower line \<noteq> ''history''" "lower line \<noteq> ''clear''"
      and "analyze_text_response E (length (calls w)) line = Inl (HttpResponseError msg)"
  shows "\<exists>w'. main_loop E uid (line # rest) w = (Inl TypeError, w')
           \<and> calls w' = calls w @ [AnalyzeText line (Inl (HttpResponseError msg))]
           \<and> container w' = container w
           \<and> stdout w' = stdout w @ [''You: '', ''Failed to analyze text. Error: '' @ msg @ newline]"
  using assms
  by (simp add: loop_body_def analyze_text_def content_safety_analyze_text_def Let_def)

theorem classification_failure_ends_session_witness:
  "fst (main_loop E_unavailable ''alice'' [''Hello'', ''history'', ''exit''] w_empty) = Inl TypeError
   \<and> calls (snd (main_loop E_unavailable ''alice'' [''Hello'', ''history'', ''exit''] w_empty))
        = [AnalyzeText ''Hello'' (Inl (HttpResponseError ''503''))]
   \<and> container (snd (main_loop E_unavailable ''alice'' [''Hello'', ''history'', ''exit''] w_empty)) = []
   \<and> stdout (snd (main_loop E_unavailable ''alice'' [''Hello'', ''history'', ''exit''] w_empty))
        = [''You: '', ''Failed to analyze text. Error: 503'' @ newline]"
proof -
  have 1: "lower ''Hello'' \<noteq> ''exit''" "lower ''Hello'' \<noteq> ''history''" "lower ''Hello'' \<noteq> ''clear''"
    by simp_all
  have 2: "analyze_text_response E_unavailable (length (calls w_empty)) ''Hello''
             = Inl (HttpResponseError ''503'')"
    by (simp add: E_unavailable_def)
  from classification_failure_ends_session[OF 1 2, of "''alice''" "[''history'', ''exit'']"]
  show ?thesis by (auto simp: w_empty_def)
qed

subsection \<open>Commands\<close>

lemma of_char_lower_char:
  "of_char (lower_char x) =
     (if 65 \<le> (of_char x :: nat) \<and> (of_char x :: nat) \<le> 90 then of_char x + 32 else (of_char x :: nat))"
  by (simp add: lower_char_def less_eq_char_def)

lemma of_char_upper_char:
  "of_char (upper_char x) =
     (if 97 \<le> (of_char x :: nat) \<and> (of_char x :: nat) \<le> 122 then of_char x - 32 else (of_char x :: nat))"
proof -
  have "(of_char x :: nat) < 256" by simp
  then have "(of_char x :: nat) - 32 < 256" by arith
  then have "((of_char x :: nat) - 32) mod 256 = of_char x - 32" by (rule mod_less)
  then show ?thesis by (simp add: upper_char_def less_eq_char_def)
qed

lemma lower_char_eq_iff:
  assumes "CHR ''a'' \<le> c" "c \<le> CHR ''z''"
  shows "(lower_char x = c) = letter_matches c x"
proof -
  from assms have m: "97 \<le> (of_char c :: nat)" "(of_char c :: nat) \<le> 122"
    by (simp_all add: less_eq_char_def)
  have "(lower_char x = c) = ((of_char (lower_char x) :: nat) = of_char c)" by simp
  also have "\<dots> = ((of_char x :: nat) = of_char c \<or> (of_char x :: nat) = of_char (upper_char c))"
    using m by (simp only: of_char_lower_char of_char_upper_char) auto
  also have "\<dots> = letter_matches c x" by (simp add: letter_matches_def)
  finally show ?thesis .
qed

lemma lower_eq_iff:
  assumes "\<forall>c\<in>set cmd. CHR ''a'' \<le> c \<and> c \<le> CHR ''z''"
  shows "(lower line = cmd) = matches_command cmd line"
  using assms
proof (induction cmd arbitrary: line)
  case Nil
  then show ?case by (cases line) (simp_all add: matches_command_def)
next
  case (Cons c cs)
  show ?case
  proof (cases line)
    case Nil
    then show ?thesis by (simp add: matches_command_def)
  next
    case (Cons x xs)
    from Cons.prems have c: "CHR ''a'' \<le> c" "c \<le> CHR ''z''" by simp_all
    from Cons.prems have "(lower xs = cs) = matches_command cs xs" using Cons.IH by simp
    with lower_char_eq_iff[OF c] Cons show ?thesis
      by (simp add: matches_command_def)
  qed
qed

lemma command_words:
  "(lower line = ''exit'') = matches_command ''exit'' line"
  "(lower line = ''history'') = matches_command ''history'' line"
  "(lower line = ''clear'') = matches_command ''clear'' line"
  by (rule lower_eq_iff; simp)+

lemma command_distinct:
  "lower line = ''history'' \<Longrightarrow> lower line \<noteq> ''exit''"
  "lower line = ''clear'' \<Longrightarrow> lower line \<noteq> ''exit'' \<and> lower line \<noteq> ''history''"
  by auto

lemma message_first_call:
  assumes "lower line \<noteq> ''exit''" "lower line \<noteq> ''history''" "lower line \<noteq> ''clear''"
  shows "\<exists>r w' cs. main_loop E uid (line # rest) w = (r, w')
           \<and> calls w' = calls w @ AnalyzeText line (analyze_text_response E (length (calls w)) line) # cs"
proof -
  let ?w0 = "prompt ''You: '' w"
  let ?A = "AnalyzeText line (analyze_text_response E (length (calls w)) line)"
  obtain r1 w1 where b: "loop_body E uid line ?w0 = (r1, w1)" by fastforce
  obtain r0 wa where a: "analyze_text E line ?w0 = (r0, wa)" by fastforce
  from analyze_text_effect(1)[OF a] have ca: "calls wa = calls w @ [?A]" by simp
  from b a assms have body:
    "(r1, w1) =
       (case r0 of
          Inl e \<Rightarrow> (Inl e, wa)
        | Inr None \<Rightarrow> (Inl TypeError, wa)
        | Inr (Some (is_safe, results)) \<Rightarrow>
            if is_safe then
              (case load_historical_context E uid wa of
                 (Inl e, w2) \<Rightarrow> (Inl e, w2)
               | (Inr history, w2) \<Rightarrow>
                   (case chat_with_kernel E line history w2 of
                      (Inl e, w3) \<Rightarrow> (Inl e, w3)
                    | (Inr chat_response, w3) \<Rightarrow>
                        (case store_interaction E uid line chat_response
                                (print (''Chatbot: '' @ chat_response) w3) of
                           (Inl e, w4) \<Rightarrow> (Inl e, w4)
                         | (Inr u, w4) \<Rightarrow> (Inr Continue, w4))))
            else
              (Inr Continue,
               print ''Chatbot: Your message is not safe to process. Please rephrase and try again.'' wa))"
    by (simp add: loop_body_def)
  have "\<exists>cs. calls w1 = calls wa @ cs"
  proof (cases "\<exists>results. r0 = Inr (Some (True, results))")
    case False
    with body have "calls w1 = calls wa"
      by (auto split: sum.splits option.splits if_splits)
    then show ?thesis by simp
  next
    case True
    then obtain results where r0: "r0 = Inr (Some (True, results))" by blast
    obtain r2 w2 where l: "load_historical_context E uid wa = (r2, w2)" by fastforce
    from load_effect(1)[OF l] obtain c2 where c2: "calls w2 = calls wa @ c2" by blast
    show ?thesis
    proof (cases r2)
      case (Inl e)
      with body r0 l have "w1 = w2" by simp
      with c2 show ?thesis by blast
    next
      case (Inr h)
      obtain r3 w3 where g: "chat_with_kernel E line h w2 = (r3, w3)" by fastforce
      from chat_effect(1)[OF g] c2 obtain c3 where c3: "calls w3 = calls wa @ c3" by simp
      show ?thesis
      proof (cases r3)
        case (Inl e)
        with body r0 l Inr g have "w1 = w3" by simp
        with c3 show ?thesis by blast
      next
        case (Inr resp)
        obtain r4 w4 where st: "store_interaction E uid line resp (print (''Chatbot: '' @ resp) w3) = (r4, w4)"
          by fastforce
        from store_effect[OF st] c3 obtain c4 where c4: "calls w4 = calls wa @ c4" by auto
        from body r0 l \<open>r2 = Inr h\<close> g Inr st have "w1 = w4" by (auto split: sum.splits)
        with c4 show ?thesis by blast
      qed
    qed
  qed
  then obtain cs1 where c1: "calls w1 = calls w @ ?A # cs1" using ca by auto
  obtain r w' where m: "main_loop E uid (line # rest) w = (r, w')" by fastforce
  show ?thesis
  proof (cases "r1 = Inr Continue")
    case False
    with b m have "w' = w1" by (auto split: sum.splits control.splits)
    with c1 m show ?thesis by blast
  next
    case True
    with b m have "main_loop E uid rest w1 = (r, w')" by simp
    from main_loop_trace[OF this] obtain N where "calls w' = calls w1 @ N" by blast
    with c1 have "calls w' = calls w @ ?A # (cs1 @ N)" by simp
    with m show ?thesis by blast
  qed
qed

lemma message_turn_safe:
  assumes "lower line \<noteq> ''exit''" "lower line \<noteq> ''history''" "lower line \<noteq> ''clear''"
      and "analyze_text_response E (length (calls w)) line = Inr response"
      and "verdict_safe response"
      and "cosmos_fault E (length (calls w) + 1) = None"
      and "invoke_response E (length (calls w) + 2) line (history_text uid (container w)) = Inr resp"
      and "cosmos_fault E (length (calls w) + 3) = None"
      and "d = \<lparr>item_id = str_timestamp (utcnow E (length (calls w) + 3)),
                 user_message = line, bot_response = resp,
                 timestamp = isoformat (utcnow E (length (calls w) + 3)), userId = uid\<rparr>"
  shows "\<exists>w1. main_loop E uid (line # rest) w = main_loop E uid rest w1
           \<and> calls w1 = calls w @ [AnalyzeText line (Inr response), QueryItems True uid None,
                 Invoke line (history_text uid (container w)) (Inr resp), UpsertItem d None]
           \<and> container w1 = upsert_item d (container w)
           \<and> last (stdout w1) = ''Chatbot: '' @ resp @ newline"
proof -
  let ?w0 = "prompt ''You: '' w"
  let ?k = "length (calls w)"
  let ?h = "history_text uid (container w)"
  obtain r0 wa where a: "analyze_text E line ?w0 = (r0, wa)" by fastforce
  from analyze_text_effect[OF a] assms(4)
  obtain results where wa: "calls wa = calls w @ [AnalyzeText line (Inr response)]"
    "container wa = container w" "r0 = Inr (Some (verdict_safe response, results))"
    by auto
  obtain r2 w2 where l: "load_historical_context E uid wa = (r2, w2)" by fastforce
  from load_effect[OF l] wa assms(6)
  have w2: "calls w2 = calls w @ [AnalyzeText line (Inr response), QueryItems True uid None]"
    "container w2 = container w" "r2 = Inr ?h"
    by (simp_all add: history_text_def join_render)
  obtain r3 w3 where g: "chat_with_kernel E line ?h w2 = (r3, w3)" by fastforce
  from chat_effect[OF g] w2 assms(7)
  have w3: "calls w3 = calls w @ [AnalyzeText line (Inr response), QueryItems True uid None,
                 Invoke line ?h (Inr resp)]"
    "container w3 = container w" "r3 = Inr resp"
    by simp_all
  let ?w3 = "print (''Chatbot: '' @ resp) w3"
  obtain r4 w4 where s: "store_interaction E uid line resp ?w3 = (r4, w4)" by fastforce
  have n3: "length (calls w) + 3 = Suc (Suc (Suc (length (calls w))))" by simp
  from store_effect[OF s] w3 assms(8,9)[unfolded n3]
  have w4: "calls w4 = calls w @ [AnalyzeText line (Inr response), QueryItems True uid None,
                 Invoke line ?h (Inr resp), UpsertItem d None]"
    "container w4 = upsert_item d (container w)" "r4 = Inr ()" "stdout w4 = stdout ?w3"
    by simp_all
  have "loop_body E uid line ?w0 = (Inr Continue, w4)"
    using assms(1,2,3,5) a wa(3) l w2(3) g w3(3) s w4(3)
    by (simp add: loop_body_def)
  then have "main_loop E uid (line # rest) w = main_loop E uid rest w4" by simp
  with w4 show ?thesis by (intro exI[of _ w4]) simp
qed

text \<open>
  Claim C6, as the code has it: a command is recognised by a case-insensitive match of
  the whole line as \<open>input\<close> returned it; the line is not trimmed. A line that matches
  exit ends the loop, with no call issued and no further line read. A line that matches
  history reads the history and, when the read does not fail, prints it between its two
  banners and the loop continues. A line that matches clear deletes the documents of the
  user and, when no call fails, prints the confirmation and the loop continues with the
  documents of the other users. Any other line is a chat message: the first call the
  session issues for it is the classification of that line.
\<close>

theorem commands_match_whole_line:
  "(matches_command ''exit'' line \<longrightarrow>
      main_loop E uid (line # rest) w = (Inr (), prompt ''You: '' w))
 \<and> (matches_command ''history'' line \<and> cosmos_fault E (length (calls w)) = None \<longrightarrow>
      (\<exists>w1. main_loop E uid (line # rest) w = main_loop E uid rest w1
         \<and> calls w1 = calls w @ [QueryItems True uid None]
         \<and> container w1 = container w
         \<and> stdout w1 = stdout w @
              [''You: '',
               newline @ ''<-- Chat history of user ID: '' @ uid @ '' -->'' @ newline,
               history_text uid (container w) @ newline,
               ''<-- End of chat history of user ID: '' @ uid @ '' -->'' @ newline @ newline]))
 \<and> (matches_command ''clear'' line \<and> wf_container (container w)
        \<and> no_fault_from E (length (calls w)) \<longrightarrow>
      (\<exists>w1. main_loop E uid (line # rest) w = main_loop E uid rest w1
         \<and> calls w1 = calls w @ QueryItems False uid None
              # map (\<lambda>d. DeleteItem d uid None) (filter (\<lambda>x. userId x = uid) (container w))
         \<and> container w1 = filter (\<lambda>x. userId x \<noteq> uid) (container w)
         \<and> stdout w1 = stdout w @ [''You: '', ''Chat history cleared.'' @ newline]))
 \<and> (\<not> matches_command ''exit'' line \<and> \<not> matches_command ''history'' line
        \<and> \<not> matches_command ''clear'' line \<longrightarrow>
      (\<exists>r w' cs. main_loop E uid (line # rest) w = (r, w')
         \<and> calls w' = calls w
              @ AnalyzeText line (analyze_text_response E (length (calls w)) line) # cs))"
proof (intro conjI impI)
  assume "matches_command ''exit'' line"
  then have "lower line = ''exit''" by (simp only: command_words)
  then show "main_loop E uid (line # rest) w = (Inr (), prompt ''You: '' w)"
    by (simp add: loop_body_def)
next
  assume a: "matches_command ''history'' line \<and> cosmos_fault E (length (calls w)) = None"
  then have l: "lower line = ''history''" by (simp only: command_words)
  let ?w0 = "prompt ''You: '' w"
  let ?w1 = "print (''<-- End of chat history of user ID: '' @ uid @ '' -->'' @ newline)
                (print (history_text uid (container w))
                  (print (newline @ ''<-- Chat history of user ID: '' @ uid @ '' -->'')
                     (issue (QueryItems True uid None) ?w0)))"
  from a have "load_historical_context E uid ?w0
                 = (Inr (history_text uid (container w)), issue (QueryItems True uid None) ?w0)"
    by (simp add: load_historical_context_def load_historical_context_sync_def
        container_query_items_def history_text_def join_render)
  with l command_distinct(1)[OF l]
  have "main_loop E uid (line # rest) w = main_loop E uid rest ?w1"
    by (simp add: loop_body_def)
  then show "\<exists>w1. main_loop E uid (line # rest) w = main_loop E uid rest w1
         \<and> calls w1 = calls w @ [QueryItems True uid None]
         \<and> container w1 = container w
         \<and> stdout w1 = stdout w @
              [''You: '',
               newline @ ''<-- Chat history of user ID: '' @ uid @ '' -->'' @ newline,
               history_text uid (container w) @ newline,
               ''<-- End of chat history of user ID: '' @ uid @ '' -->'' @ newline @ newline]"
    by (intro exI[of _ ?w1]) simp
next
  assume a: "matches_command ''clear'' line \<and> wf_container (container w)
        \<and> no_fault_from E (length (calls w))"
  then have l: "lower line = ''clear''" by (simp only: command_words)
  let ?w0 = "prompt ''You: '' w"
  from a have "wf_container (container ?w0)" "no_fault_from E (length (calls ?w0))" by simp_all
  from clear_all[OF this, of uid] obtain wc where
    wc: "clear_historical_context_sync E uid ?w0 = (Inr (), wc)"
        "container wc = filter (\<lambda>x. userId x \<noteq> uid) (container ?w0)"
        "stdout wc = stdout ?w0"
        "calls wc = calls ?w0 @ QueryItems False uid None
                # map (\<lambda>d. DeleteItem d uid None) (filter (\<lambda>x. userId x = uid) (container ?w0))"
    by blast
  let ?w1 = "print ''Chat history cleared.'' wc"
  from l command_distinct(2)[OF l] wc(1)
  have "main_loop E uid (line # rest) w = main_loop E uid rest ?w1"
    by (simp add: loop_body_def clear_historical_context_def)
  with wc(2,3,4) show "\<exists>w1. main_loop E uid (line # rest) w = main_loop E uid rest w1
         \<and> calls w1 = calls w @ QueryItems False uid None
              # map (\<lambda>d. DeleteItem d uid None) (filter (\<lambda>x. userId x = uid) (container w))
         \<and> container w1 = filter (\<lambda>x. userId x \<noteq> uid) (container w)
         \<and> stdout w1 = stdout w @ [''You: '', ''Chat history cleared.'' @ newline]"
    by (intro exI[of _ ?w1]) simp
next
  assume "\<not> matches_command ''exit'' line \<and> \<not> matches_command ''history'' line
        \<and> \<not> matches_command ''clear'' line"
  then have "lower line \<noteq> ''exit''" "lower line \<noteq> ''history''" "lower line \<noteq> ''clear''"
    by (simp_all only: command_words not_False_eq_True)
  from message_first_call[OF this]
  show "\<exists>r w' cs. main_loop E uid (line # rest) w = (r, w')
         \<and> calls w' = calls w
              @ AnalyzeText line (analyze_text_response E (length (calls w)) line) # cs" .
qed

lemma matches_examples:
  "matches_command ''exit'' ''EXIT''"
  "matches_command ''history'' ''History''"
  "matches_command ''exit'' (trimmed ''exit '')"
  "\<not> matches_command ''exit'' ''exit ''"
  "\<not> matches_command ''history'' ''exit ''"
  "\<not> matches_command ''clear'' ''exit ''"
  by code_simp+

theorem commands_match_whole_line_witness:
  "main_loop E_ok ''alice'' [''EXIT'', ''Hello''] w_empty = (Inr (), prompt ''You: '' w_empty)
   \<and> (\<exists>w1. main_loop E_ok ''alice'' [''History'', ''Hello''] w_two_users
              = main_loop E_ok ''alice'' [''Hello''] w1
         \<and> calls w1 = [QueryItems True ''alice'' None]
         \<and> container w1 = [turn_a1, turn_b1, turn_a2])
   \<and> (\<exists>r w' cs. main_loop E_ok ''alice'' [''exit '', ''Hello''] w_empty = (r, w')
         \<and> calls w' = AnalyzeText ''exit '' (Inr [\<lparr>category = HATE, severity = 0\<rparr>]) # cs)"
proof -
  note t1 = commands_match_whole_line[where line="''EXIT''" and E=E_ok and uid="''alice''"
      and rest="[''Hello'']" and w=w_empty]
  note t2 = commands_match_whole_line[where line="''History''" and E=E_ok and uid="''alice''"
      and rest="[''Hello'']" and w=w_two_users]
  note t3 = commands_match_whole_line[where line="''exit ''" and E=E_ok and uid="''alice''"
      and rest="[''Hello'']" and w=w_empty]
  have f: "cosmos_fault E_ok (length (calls w_two_users)) = None" by (simp add: E_ok_def)
  have 1: "main_loop E_ok ''alice'' [''EXIT'', ''Hello''] w_empty = (Inr (), prompt ''You: '' w_empty)"
    using t1 matches_examples(1) by blast
  have 2: "\<exists>w1. main_loop E_ok ''alice'' [''History'', ''Hello''] w_two_users
              = main_loop E_ok ''alice'' [''Hello''] w1
         \<and> calls w1 = [QueryItems True ''alice'' None]
         \<and> container w1 = [turn_a1, turn_b1, turn_a2]"
    using t2 matches_examples(2) f by (auto simp: w_two_users_def)
  have 3: "\<exists>r w' cs. main_loop E_ok ''alice'' [''exit '', ''Hello''] w_empty = (r, w')
         \<and> calls w' = AnalyzeText ''exit '' (Inr [\<lparr>category = HATE, severity = 0\<rparr>]) # cs"
    using t3 matches_examples(4,5,6) by (auto simp: w_empty_def E_ok_def)
  from 1 2 3 show ?thesis by blast
qed

text \<open>
  The line \<open>exit\<close> followed by a space is exit once trimmed, yet it does not end the loop:
  it is classified, answered and stored as a chat message, and the loop goes on to read
  the next line.
\<close>

theorem trimmed_exit_counterexample:
  "matches_command ''exit'' (trimmed ''exit '')
   \<and> main_loop E_ok ''alice'' [''exit ''] w_empty \<noteq> (Inr (), prompt ''You: '' w_empty)
   \<and> fst (main_loop E_ok ''alice'' [''exit ''] w_empty) = Inl EOFError
   \<and> calls (snd (main_loop E_ok ''alice'' [''exit ''] w_empty)) =
       [AnalyzeText ''exit '' (Inr [\<lparr>category = HATE, severity = 0\<rparr>]),
        QueryItems True ''alice'' None, Invoke ''exit '' [] (Inr ''Hi''),
        UpsertItem (turn_hello\<lparr>user_message := ''exit ''\<rparr>) None]"
proof -
  have r: "fst (main_loop E_ok ''alice'' [''exit ''] w_empty) = Inl EOFError
     \<and> calls (snd (main_loop E_ok ''alice'' [''exit ''] w_empty)) =
       [AnalyzeText ''exit '' (Inr [\<lparr>category = HATE, severity = 0\<rparr>]),
        QueryItems True ''alice'' None, Invoke ''exit '' [] (Inr ''Hi''),
        UpsertItem (turn_hello\<lparr>user_message := ''exit ''\<rparr>) None]"
    by (simp add: run_defs E_ok_def w_empty_def turn_hello_def)
  then have "main_loop E_ok ''alice'' [''exit ''] w_empty \<noteq> (Inr (), prompt ''You: '' w_empty)"
    by (metis fst_conv sum.distinct(1))
  with r matches_examples(3) show ?thesis by blast
qed

subsection \<open>The empty line\<close>

text \<open>
  Claim C10. The empty line is none of the three commands. The first call the session
  issues for it is the classification of the empty text. When the verdict is safe and
  the history read, the generation and the write succeed, the response is printed, the
  turn with the empty message is upserted, and the loop continues: no guard excludes the
  empty line anywhere.
\<close>

theorem empty_line_is_chat_message:
  "lower [] \<noteq> ''exit'' \<and> lower [] \<noteq> ''history'' \<and> lower [] \<noteq> ''clear''
 \<and> (\<exists>r w' cs. main_loop E uid ([] # rest) w = (r, w')
        \<and> calls w' = calls w @ AnalyzeText [] (analyze_text_response E (length (calls w)) []) # cs)
 \<and> (analyze_text_response E (length (calls w)) [] = Inr response
      \<and> verdict_safe response
      \<and> cosmos_fault E (length (calls w) + 1) = None
      \<and> invoke_response E (length (calls w) + 2) [] (history_text uid (container w)) = Inr resp
      \<and> cosmos_fault E (length (calls w) + 3) = None
      \<and> d = \<lparr>item_id = str_timestamp (utcnow E (length (calls w) + 3)),
                user_message = [], bot_response = resp,
                timestamp = isoformat (utcnow E (length (calls w) + 3)), userId = uid\<rparr>
     \<longrightarrow> (\<exists>w1. main_loop E uid ([] # rest) w = main_loop E uid rest w1
           \<and> calls w1 = calls w @ [AnalyzeText [] (Inr response), QueryItems True uid None,
                 Invoke [] (history_text uid (container w)) (Inr resp), UpsertItem d None]
           \<and> container w1 = upsert_item d (container w)
           \<and> last (stdout w1) = ''Chatbot: '' @ resp @ newline))"
proof -
  have n: "lower [] \<noteq> ''exit''" "lower [] \<noteq> ''history''" "lower [] \<noteq> ''clear''" by simp_all
  note a = message_first_call[OF n, of E uid rest w]
  have b: "analyze_text_response E (length (calls w)) [] = Inr response
      \<and> verdict_safe response
      \<and> cosmos_fault E (length (calls w) + 1) = None
      \<and> invoke_response E (length (calls w) + 2) [] (history_text uid (container w)) = Inr resp
      \<and> cosmos_fault E (length (calls w) + 3) = None
      \<and> d = \<lparr>item_id = str_timestamp (utcnow E (length (calls w) + 3)),
                user_message = [], bot_response = resp,
                timestamp = isoformat (utcnow E (length (calls w) + 3)), userId = uid\<rparr>
     \<longrightarrow> (\<exists>w1. main_loop E uid ([] # rest) w = main_loop E uid rest w1
           \<and> calls w1 = calls w @ [AnalyzeText [] (Inr response), QueryItems True uid None,
                 Invoke [] (history_text uid (container w)) (Inr resp), UpsertItem d None]
           \<and> container w1 = upsert_item d (container w)
           \<and> last (stdout w1) = ''Chatbot: '' @ resp @ newline)"
    using message_turn_safe[OF n, where E=E and w=w and response=response and uid=uid
        and resp=resp and d=d and rest=rest] by blast
  from n a b show ?thesis by blast
qed

theorem empty_line_is_chat_message_witness:
  "\<exists>w1. main_loop E_ok ''alice'' [[], ''exit''] w_empty = main_loop E_ok ''alice'' [''exit''] w1
      \<and> calls w1 = [AnalyzeText [] (Inr [\<lparr>category = HATE, severity = 0\<rparr>]),
                     QueryItems True ''alice'' None, Invoke [] [] (Inr ''Hi''),
                     UpsertItem (turn_hello\<lparr>user_message := []\<rparr>) None]
      \<and> container w1 = [turn_hello\<lparr>user_message := []\<rparr>]"
proof -
  let ?d = "turn_hello\<lparr>user_message := []\<rparr>"
  have h: "history_text ''alice'' (container w_empty) = []"
    by (simp add: history_text_def w_empty_def query_items_def)
  have p: "analyze_text_response E_ok (length (calls w_empty)) [] = Inr [\<lparr>category = HATE, severity = 0\<rparr>]
      \<and> verdict_safe [\<lparr>category = HATE, severity = 0\<rparr>]
      \<and> cosmos_fault E_ok (length (calls w_empty) + 1) = None
      \<and> invoke_response E_ok (length (calls w_empty) + 2) [] (history_text ''alice'' (container w_empty)) = Inr ''Hi''
      \<and> cosmos_fault E_ok (length (calls w_empty) + 3) = None
      \<and> ?d = \<lparr>item_id = str_timestamp (utcnow E_ok (length (calls w_empty) + 3)),
                user_message = [], bot_response = ''Hi'',
                timestamp = isoformat (utcnow E_ok (length (calls w_empty) + 3)), userId = ''alice''\<rparr>"
    using verdict_safe_example by (simp add: E_ok_def turn_hello_def)
  have u: "upsert_item ?d (container w_empty) = [?d]"
    by (simp add: upsert_item_def w_empty_def)
  have c: "calls w_empty = []" by (simp add: w_empty_def)
  from empty_line_is_chat_message[where E=E_ok and w=w_empty and rest="[''exit'']"
        and response="[\<lparr>category = HATE, severity = 0\<rparr>]" and uid="''alice''"
        and resp="''Hi''" and d="?d"] p
  have "\<exists>w1. main_loop E_ok ''alice'' ([] # [''exit'']) w_empty = main_loop E_ok ''alice'' [''exit''] w1
           \<and> calls w1 = calls w_empty @ [AnalyzeText [] (Inr [\<lparr>category = HATE, severity = 0\<rparr>]), QueryItems True ''alice'' None,
                 Invoke [] (history_text ''alice'' (container w_empty)) (Inr ''Hi''), UpsertItem ?d None]
           \<and> container w1 = upsert_item ?d (container w_empty)
           \<and> last (stdout w1) = ''Chatbot: '' @ ''Hi'' @ newline"
    by blast
  then show ?thesis by (auto simp: h u c)
qed

subsection \<open>When a turn is stored\<close>

lemma message_turn_stored:
  assumes "lower line \<noteq> ''exit''" "lower line \<noteq> ''history''" "lower line \<noteq> ''clear''"
      and "turn_accepted E uid line w response resp"
      and "d = \<lparr>item_id = str_timestamp (utcnow E (length (calls w) + 3)),
                 user_message = line, bot_response = resp,
                 timestamp = isoformat (utcnow E (length (calls w) + 3)), userId = uid\<rparr>"
      and "loop_body E uid line (prompt ''You: '' w) = (r1, w1)"
  shows "r1 = Inr Continue
       \<and> calls w1 = calls w @ [AnalyzeText line (Inr response), QueryItems True uid None,
             Invoke line (history_text uid (container w)) (Inr resp), UpsertItem d None]
       \<and> container w1 = upsert_item d (container w)"
proof -
  let ?w0 = "prompt ''You: '' w"
  let ?h = "history_text uid (container w)"
  from assms(4) have acc:
    "analyze_text_response E (length (calls w)) line = Inr response"
    "verdict_safe response"
    "cosmos_fault E (length (calls w) + 1) = None"
    "invoke_response E (length (calls w) + 2) line ?h = Inr resp"
    "cosmos_fault E (length (calls w) + 3) = None"
    by (simp_all add: turn_accepted_def)
  obtain r0 wa where a: "analyze_text E line ?w0 = (r0, wa)" by fastforce
  from analyze_text_effect[OF a] acc(1)
  obtain results where wa: "calls wa = calls w @ [AnalyzeText line (Inr response)]"
    "container wa = container w" "r0 = Inr (Some (verdict_safe response, results))"
    by auto
  obtain r2 w2 where l: "load_historical_context E uid wa = (r2, w2)" by fastforce
  from load_effect[OF l] wa acc(3)
  have w2: "calls w2 = calls w @ [AnalyzeText line (Inr response), QueryItems True uid None]"
    "container w2 = container w" "r2 = Inr ?h"
    by (simp_all add: history_text_def join_render)
  obtain r3 w3 where g: "chat_with_kernel E line ?h w2 = (r3, w3)" by fastforce
  from chat_effect[OF g] w2 acc(4)
  have w3: "calls w3 = calls w @ [AnalyzeText line (Inr response), QueryItems True uid None,
                 Invoke line ?h (Inr resp)]"
    "container w3 = container w" "r3 = Inr resp"
    by simp_all
  let ?w3 = "print (''Chatbot: '' @ resp) w3"
  obtain r4 w4 where s: "store_interaction E uid line resp ?w3 = (r4, w4)" by fastforce
  have n3: "length (calls w) + 3 = Suc (Suc (Suc (length (calls w))))" by simp
  from store_effect[OF s] w3 acc(5)[unfolded n3] assms(5)[unfolded n3]
  have w4: "calls w4 = calls w @ [AnalyzeText line (Inr response), QueryItems True uid None,
                 Invoke line ?h (Inr resp), UpsertItem d None]"
    "container w4 = upsert_item d (container w)" "r4 = Inr ()"
    by simp_all
  have "loop_body E uid line ?w0 = (Inr Continue, w4)"
    using assms(1,2,3) acc(2) a wa(3) l w2(3) g w3(3) s w4(3)
    by (simp add: loop_body_def)
  with assms(6) w4 show ?thesis by simp
qed

lemma message_turn_not_stored:
  assumes "lower line \<noteq> ''exit''" "lower line \<noteq> ''history''" "lower line \<noteq> ''clear''"
      and "\<forall>response resp. \<not> turn_accepted E uid line w response resp"
      and "loop_body E uid line (prompt ''You: '' w) = (r1, w1)"
  shows "container w1 = container w
       \<and> (\<forall>d. UpsertItem d None \<notin> set (drop (length (calls w)) (calls w1)))"
proof -
  let ?w0 = "prompt ''You: '' w"
  let ?k = "length (calls w)"
  let ?h = "history_text uid (container w)"
  let ?A = "AnalyzeText line (analyze_text_response E ?k line)"
  obtain r0 wa where a: "analyze_text E line ?w0 = (r0, wa)" by fastforce
  from analyze_text_effect[OF a] have wa:
    "calls wa = calls w @ [?A]" "container wa = container w"
    "r0 = (case analyze_text_response E ?k line of
                Inr response \<Rightarrow>
                  Inr (Some (verdict_safe response,
                    [(''hate'', next_category HATE response),
                     (''self_harm'', next_category SELF_HARM response),
                     (''sexual'', next_category SEXUAL response),
                     (''violence'', next_category VIOLENCE response)]))
              | Inl (HttpResponseError m) \<Rightarrow> Inr None
              | Inl e \<Rightarrow> Inl e)"
    by simp_all
  from assms(1,2,3,5) a have body:
    "(r1, w1) =
       (case r0 of
          Inl e \<Rightarrow> (Inl e, wa)
        | Inr None \<Rightarrow> (Inl TypeError, wa)
        | Inr (Some (is_safe, results)) \<Rightarrow>
            if is_safe then
              (case load_historical_context E uid wa of
                 (Inl e, w2) \<Rightarrow> (Inl e, w2)
               | (Inr history, w2) \<Rightarrow>
                   (case chat_with_kernel E line history w2 of
                      (Inl e, w3) \<Rightarrow> (Inl e, w3)
                    | (Inr chat_response, w3) \<Rightarrow>
                        (case store_interaction E uid line chat_response
                                (print (''Chatbot: '' @ chat_response) w3) of
                           (Inl e, w4) \<Rightarrow> (Inl e, w4)
                         | (Inr u, w4) \<Rightarrow> (Inr Continue, w4))))
            else
              (Inr Continue,
               print ''Chatbot: Your message is not safe to process. Please rephrase and try again.'' wa))"
    by (simp add: loop_body_def)
  show ?thesis
  proof (cases "\<exists>results. r0 = Inr (Some (True, results))")
    case False
    with body have "calls w1 = calls wa" "container w1 = container wa"
      by (auto split: sum.splits option.splits if_splits)
    with wa show ?thesis by simp
  next
    case True
    then obtain results where r0: "r0 = Inr (Some (True, results))" by blast
    with wa(3) obtain response where
      resp: "analyze_text_response E ?k line = Inr response" "verdict_safe response"
      by (auto split: sum.splits error.splits)
    obtain r2 w2 where l: "load_historical_context E uid wa = (r2, w2)" by fastforce
    note le = load_effect[OF l]
    from le(1,2) wa(1,2) have w2:
      "calls w2 = calls w @ [?A, QueryItems True uid (cosmos_fault E (?k + 1))]"
      "container w2 = container w"
      by simp_all
    have k1: "length (calls wa) = ?k + 1" by (simp add: wa(1))
    show ?thesis
    proof (cases "cosmos_fault E (?k + 1)")
      case (Some e)
      with le(4) k1 have "r2 = Inl e" by simp
      with body r0 l have "w1 = w2" by simp
      with w2 Some show ?thesis by simp
    next
      case None
      with le(4) k1 wa(2) have r2: "r2 = Inr ?h"
        by (simp add: history_text_def join_render)
      obtain r3 w3 where g: "chat_with_kernel E line ?h w2 = (r3, w3)" by fastforce
      from chat_effect[OF g] w2 None have w3:
        "calls w3 = calls w @ [?A, QueryItems True uid None, Invoke line ?h r3]"
        "container w3 = container w"
        "r3 = invoke_response E (?k + 2) line ?h"
        by simp_all
      show ?thesis
      proof (cases r3)
        case (Inl e)
        with body r0 l r2 g have "w1 = w3" by simp
        with w3 Inl resp show ?thesis by simp
      next
        case (Inr chat_response)
        let ?w3 = "print (''Chatbot: '' @ chat_response) w3"
        obtain r4 w4 where st: "store_interaction E uid line chat_response ?w3 = (r4, w4)"
          by fastforce
        from body r0 l r2 g Inr st have w14: "w1 = w4" by (auto split: sum.splits)
        have inv: "invoke_response E (?k + 2) line ?h = Inr chat_response"
          using w3(3) Inr by simp
        have "cosmos_fault E (?k + 3) \<noteq> None"
        proof
          assume "cosmos_fault E (?k + 3) = None"
          with resp None inv have "turn_accepted E uid line w response chat_response"
            by (simp add: turn_accepted_def)
          with assms(4) show False by blast
        qed
        then obtain e where "cosmos_fault E (?k + 3) = Some e" by auto
        then have f: "cosmos_fault E (Suc (Suc (Suc ?k))) = Some e" by (simp add: numeral_3_eq_3)
        from store_effect[OF st] w3 f obtain d where
          "calls w4 = calls w @ [?A, QueryItems True uid None, Invoke line ?h r3, UpsertItem d (Some e)]"
          "container w4 = container w"
          by auto
        with w14 resp show ?thesis by simp
      qed
    qed
  qed
qed

text \<open>
  Claim C1, as the code has it. For every line that is a chat message, from any world
  and under any behaviour of the services, the container after the iteration of the loop
  is as follows. When the verdict for the message is safe, the history read succeeds,
  the generation returns a response and the store accepts the write, the loop continues
  and the turn is in the container: the document with this message and this response is
  there, it is the only document with its id in the partition of the user, every other
  document is as before, and the container has grown by this document unless the id was
  taken. In every other case (the classification fails or the verdict is unsafe, the
  history read or the generation fails, or the store refuses the write) the container is
  exactly as before and the iteration has issued no write that the store accepted. A
  document always holds both the message and the response.
\<close>

theorem turn_stored_iff_accepted:
  assumes "lower line \<noteq> ''exit''" "lower line \<noteq> ''history''" "lower line \<noteq> ''clear''"
  shows "\<exists>r1 w1.
           loop_body E uid line (prompt ''You: '' w) = (r1, w1)
         \<and> main_loop E uid (line # rest) w =
              (case r1 of
                 Inl e \<Rightarrow> (Inl e, w1)
               | Inr Break \<Rightarrow> (Inr (), w1)
               | Inr Continue \<Rightarrow> main_loop E uid rest w1)
         \<and> (\<forall>response resp d.
               turn_accepted E uid line w response resp
               \<and> d = \<lparr>item_id = str_timestamp (utcnow E (length (calls w) + 3)),
                        user_message = line, bot_response = resp,
                        timestamp = isoformat (utcnow E (length (calls w) + 3)),
                        userId = uid\<rparr>
               \<longrightarrow> r1 = Inr Continue
                 \<and> calls w1 = calls w @ [AnalyzeText line (Inr response), QueryItems True uid None,
                       Invoke line (history_text uid (container w)) (Inr resp), UpsertItem d None]
                 \<and> d \<in> set (container w1)
                 \<and> (\<forall>x\<in>set (container w1). item_id x = item_id d \<and> userId x = uid \<longrightarrow> x = d)
                 \<and> filter (\<lambda>x. \<not> (item_id x = item_id d \<and> userId x = uid)) (container w1)
                     = filter (\<lambda>x. \<not> (item_id x = item_id d \<and> userId x = uid)) (container w)
                 \<and> (if \<exists>x\<in>set (container w). item_id x = item_id d \<and> userId x = uid
                     then length (container w1) = length (container w)
                     else container w1 = container w @ [d]))
         \<and> ((\<forall>response resp. \<not> turn_accepted E uid line w response resp)
               \<longrightarrow> container w1 = container w
                 \<and> (\<forall>d. UpsertItem d None \<notin> set (drop (length (calls w)) (calls w1))))"
proof -
  obtain r1 w1 where b: "loop_body E uid line (prompt ''You: '' w) = (r1, w1)" by fastforce
  have m: "main_loop E uid (line # rest) w =
              (case r1 of
                 Inl e \<Rightarrow> (Inl e, w1)
               | Inr Break \<Rightarrow> (Inr (), w1)
               | Inr Continue \<Rightarrow> main_loop E uid rest w1)"
    using b by simp
  have p: "\<forall>response resp d.
               turn_accepted E uid line w response resp
               \<and> d = \<lparr>item_id = str_timestamp (utcnow E (length (calls w) + 3)),
                        user_message = line, bot_response = resp,
                        timestamp = isoformat (utcnow E (length (calls w) + 3)),
                        userId = uid\<rparr>
               \<longrightarrow> r1 = Inr Continue
                 \<and> calls w1 = calls w @ [AnalyzeText line (Inr response), QueryItems True uid None,
                       Invoke line (history_text uid (container w)) (Inr resp), UpsertItem d None]
                 \<and> d \<in> set (container w1)
                 \<and> (\<forall>x\<in>set (container w1). item_id x = item_id d \<and> userId x = uid \<longrightarrow> x = d)
                 \<and> filter (\<lambda>x. \<not> (item_id x = item_id d \<and> userId x = uid)) (container w1)
                     = filter (\<lambda>x. \<not> (item_id x = item_id d \<and> userId x = uid)) (container w)
                 \<and> (if \<exists>x\<in>set (container w). item_id x = item_id d \<and> userId x = uid
                     then length (container w1) = length (container w)
                     else container w1 = container w @ [d])"
  proof (intro allI impI)
    fix response resp d
    assume h: "turn_accepted E uid line w response resp
               \<and> d = \<lparr>item_id = str_timestamp (utcnow E (length (calls w) + 3)),
                        user_message = line, bot_response = resp,
                        timestamp = isoformat (utcnow E (length (calls w) + 3)),
                        userId = uid\<rparr>"
    then have u: "userId d = uid" by simp
    from h message_turn_stored[OF assms _ _ b, of response resp d] have
      s: "r1 = Inr Continue"
         "calls w1 = calls w @ [AnalyzeText line (Inr response), QueryItems True uid None,
                       Invoke line (history_text uid (container w)) (Inr resp), UpsertItem d None]"
         "container w1 = upsert_item d (container w)"
      by simp_all
    have sk: "\<And>x. same_key x d = (item_id x = item_id d \<and> userId x = uid)"
      using u by (simp add: same_key_def)
    have 1: "d \<in> set (container w1)" using s(3) by (simp add: upsert_item_member)
    have 2: "\<forall>x\<in>set (container w1). item_id x = item_id d \<and> userId x = uid \<longrightarrow> x = d"
      using s(3) upsert_item_key[of _ d "container w"] sk by auto
    have 3: "filter (\<lambda>x. \<not> (item_id x = item_id d \<and> userId x = uid)) (container w1)
                     = filter (\<lambda>x. \<not> (item_id x = item_id d \<and> userId x = uid)) (container w)"
      using upsert_item_others[of d "container w"] s(3) sk by simp
    have 4: "if \<exists>x\<in>set (container w). item_id x = item_id d \<and> userId x = uid
                     then length (container w1) = length (container w)
                     else container w1 = container w @ [d]"
      using s(3) sk by (simp add: upsert_item_def list_ex_iff)
    from s(1,2) 1 2 3 4
    show "r1 = Inr Continue
                 \<and> calls w1 = calls w @ [AnalyzeText line (Inr response), QueryItems True uid None,
                       Invoke line (history_text uid (container w)) (Inr resp), UpsertItem d None]
                 \<and> d \<in> set (container w1)
                 \<and> (\<forall>x\<in>set (container w1). item_id x = item_id d \<and> userId x = uid \<longrightarrow> x = d)
                 \<and> filter (\<lambda>x. \<not> (item_id x = item_id d \<and> userId x = uid)) (container w1)
                     = filter (\<lambda>x. \<not> (item_id x = item_id d \<and> userId x = uid)) (container w)
                 \<and> (if \<exists>x\<in>set (container w). item_id x = item_id d \<and> userId x = uid
                     then length (container w1) = length (container w)
                     else container w1 = container w @ [d])"
      by (intro conjI)
  qed
  have n: "(\<forall>response resp. \<not> turn_accepted E uid line w response resp)
               \<longrightarrow> container w1 = container w
                 \<and> (\<forall>d. UpsertItem d None \<notin> set (drop (length (calls w)) (calls w1)))"
    using message_turn_not_stored[OF assms _ b] by blast
  from b m p n show ?thesis by blast
qed

lemma accepted_example:
  "turn_accepted E_ok ''alice'' ''Hello'' w_empty [\<lparr>category = HATE, severity = 0\<rparr>] ''Hi''"
  using verdict_safe_example
  by (simp add: turn_accepted_def E_ok_def w_empty_def history_text_def query_items_def)

lemma not_accepted_example:
  "\<forall>response resp. \<not> turn_accepted E_generation_fails ''alice'' ''Hello'' w_stored response resp"
  by (simp add: turn_accepted_def E_generation_fails_def)

theorem turn_stored_iff_accepted_witness:
  "(\<exists>r1 w1. loop_body E_ok ''alice'' ''Hello'' (prompt ''You: '' w_empty) = (r1, w1)
       \<and> r1 = Inr Continue \<and> container w1 = [turn_hello])
   \<and> (\<exists>r1 w1. loop_body E_generation_fails ''alice'' ''Hello'' (prompt ''You: '' w_stored) = (r1, w1)
       \<and> container w1 = [turn_hello])"
proof -
  have l: "lower ''Hello'' \<noteq> ''exit''" "lower ''Hello'' \<noteq> ''history''" "lower ''Hello'' \<noteq> ''clear''"
    by simp_all
  have d: "turn_hello = \<lparr>item_id = str_timestamp (utcnow E_ok (length (calls w_empty) + 3)),
                        user_message = ''Hello'', bot_response = ''Hi'',
                        timestamp = isoformat (utcnow E_ok (length (calls w_empty) + 3)),
                        userId = ''alice''\<rparr>"
    by (simp add: turn_hello_def E_ok_def)
  have e: "container w_empty = []" by (simp add: w_empty_def)
  have 1: "\<exists>r1 w1. loop_body E_ok ''alice'' ''Hello'' (prompt ''You: '' w_empty) = (r1, w1)
       \<and> r1 = Inr Continue \<and> container w1 = [turn_hello]"
  proof -
    from turn_stored_iff_accepted[OF l, where E=E_ok and uid="''alice''" and w=w_empty and rest="[]"]
    obtain r1 w1 where
      a: "loop_body E_ok ''alice'' ''Hello'' (prompt ''You: '' w_empty) = (r1, w1)"
      and b: "\<forall>response resp d.
               turn_accepted E_ok ''alice'' ''Hello'' w_empty response resp
               \<and> d = \<lparr>item_id = str_timestamp (utcnow E_ok (length (calls w_empty) + 3)),
                        user_message = ''Hello'', bot_response = resp,
                        timestamp = isoformat (utcnow E_ok (length (calls w_empty) + 3)),
                        userId = ''alice''\<rparr>
               \<longrightarrow> r1 = Inr Continue
                 \<and> calls w1 = calls w_empty @ [AnalyzeText ''Hello'' (Inr response), QueryItems True ''alice'' None,
                       Invoke ''Hello'' (history_text ''alice'' (container w_empty)) (Inr resp), UpsertItem d None]
                 \<and> d \<in> set (container w1)
                 \<and> (\<forall>x\<in>set (container w1). item_id x = item_id d \<and> userId x = ''alice'' \<longrightarrow> x = d)
                 \<and> filter (\<lambda>x. \<not> (item_id x = item_id d \<and> userId x = ''alice'')) (container w1)
                     = filter (\<lambda>x. \<not> (item_id x = item_id d \<and> userId x = ''alice'')) (container w_empty)
                 \<and> (if \<exists>x\<in>set (container w_empty). item_id x = item_id d \<and> userId x = ''alice''
                     then length (container w1) = length (container w_empty)
                     else container w1 = container w_empty @ [d])"
      by (elim exE conjE) (rule that; assumption)
    from b[rule_format, OF conjI[OF accepted_example d]] e
    have "r1 = Inr Continue \<and> container w1 = [turn_hello]" by simp
    with a show ?thesis by blast
  qed
  have 2: "\<exists>r1 w1. loop_body E_generation_fails ''alice'' ''Hello'' (prompt ''You: '' w_stored) = (r1, w1)
       \<and> container w1 = [turn_hello]"
  proof -
    from turn_stored_iff_accepted[OF l, where E=E_generation_fails and uid="''alice''"
        and w=w_stored and rest="[]"]
    obtain r2 w2 where
      a2: "loop_body E_generation_fails ''alice'' ''Hello'' (prompt ''You: '' w_stored) = (r2, w2)"
      and b2: "(\<forall>response resp. \<not> turn_accepted E_generation_fails ''alice'' ''Hello'' w_stored response resp)
               \<longrightarrow> container w2 = container w_stored
                 \<and> (\<forall>d. UpsertItem d None \<notin> set (drop (length (calls w_stored)) (calls w2)))"
      by (elim exE conjE) (rule that; assumption)
    from b2[THEN mp, OF not_accepted_example] have "container w2 = [turn_hello]"
      by (simp add: w_stored_def)
    with a2 show ?thesis by blast
  qed
  from 1 2 show ?thesis by (rule conjI)
qed

text \<open>
  With a safe verdict and a generation that returned its response, a write that the
  store refuses leaves no turn in the container: the exception of the write ends the
  session.
\<close>

theorem write_failure_counterexample:
  "verdict_safe [\<lparr>category = HATE, severity = 0\<rparr>]
   \<and> calls (snd (main_loop E_write_fails ''alice'' [''Hello'', ''exit''] w_empty)) =
       [AnalyzeText ''Hello'' (Inr [\<lparr>category = HATE, severity = 0\<rparr>]),
        QueryItems True ''alice'' None, Invoke ''Hello'' [] (Inr ''Hi''),
        UpsertItem turn_hello (Some (Exception ''StoreError''))]
   \<and> container (snd (main_loop E_write_fails ''alice'' [''Hello'', ''exit''] w_empty)) = []
   \<and> fst (main_loop E_write_fails ''alice'' [''Hello'', ''exit''] w_empty)
        = Inl (Exception ''StoreError'')"
  using verdict_safe_example
  by (simp add: run_defs E_write_fails_def E_ok_def w_empty_def turn_hello_def)

end
